theory Spec2Isabelle
  imports Complex_Main "HOL-Library.Word" "HOL-Library.Multiset" "HOL-Library.Log_Nat"
    "HOL-Library.AList" "HOL-Library.Signed_Division"
begin

unbundle bit_operations_syntax

section \<open>The relay of src/relay.go\<close>

text \<open>
  A shallow embedding of \<^verbatim>\<open>relay.go\<close>: one cycle that loads the registry of known
  sensors, scans for advertisements, polls every matched device over BLE and publishes
  the collected payloads over MQTT.

  The libraries the program calls (go-ble, paho MQTT, ini.v1, pkg/errors, the clock) are
  not part of the repository. What they return is an input of the model (the record
  \<open>env\<close> and the records it holds); what the program asks of them is written to a list
  of events. A Go map is an association list with distinct keys (\<open>AList.update\<close>
  overwrites in place), and the unspecified order of \<^verbatim>\<open>range\<close> over a map is the order
  of an arbitrary ranking of the keys that the environment supplies. Console output is
  not modelled.
\<close>

subsection \<open>Strings and the two regular expressions\<close>

type_synonym byte = "8 word"
type_synonym uint16 = "16 word"

text \<open>
  \<^verbatim>\<open>strings.ToLower\<close> on the ASCII letters. Go also lower-cases letters outside ASCII;
  their UTF-8 bytes are all above 127 and are left as they are here.
\<close>

definition upperChar :: "char \<Rightarrow> bool" where
  "upperChar c = (c \<in> set ''ABCDEFGHIJKLMNOPQRSTUVWXYZ'')"

definition lowerChar :: "char \<Rightarrow> char" where
  "lowerChar c =
     (case map_of (zip ''ABCDEFGHIJKLMNOPQRSTUVWXYZ'' ''abcdefghijklmnopqrstuvwxyz'') c of
        Some l \<Rightarrow> l
      | None \<Rightarrow> c)"

definition toLower :: "string \<Rightarrow> string" where
  "toLower s = map lowerChar s"

text \<open>
  \<^verbatim>\<open>regexp.MatchString\<close> is not anchored: it succeeds when the pattern matches at some
  position of the string.
\<close>

fun matchAnywhere :: "(string \<Rightarrow> bool) \<Rightarrow> string \<Rightarrow> bool" where
  "matchAnywhere p [] = p []"
| "matchAnywhere p (c # cs) = (p (c # cs) \<or> matchAnywhere p cs)"

definition atcChar :: "char \<Rightarrow> bool" where
  "atcChar c = (c \<in> set ''0123456789ABCDEFGHIJKLMNOPQRSTUVWXYZ'')"

text \<open>\<^verbatim>\<open>atcDeviceRegex = ATC_[0-9A-Z]+\<close>, matched at the start of the string.\<close>

fun atcPrefix :: "string \<Rightarrow> bool" where
  "atcPrefix (a # t # c # u # x # rest) =
     (a = CHR ''A'' \<and> t = CHR ''T'' \<and> c = CHR ''C'' \<and> u = CHR ''_'' \<and> atcChar x)"
| "atcPrefix _ = False"

definition atcMatcher :: "string \<Rightarrow> bool" where
  "atcMatcher s = matchAnywhere atcPrefix s"

definition hexDigit :: "char \<Rightarrow> bool" where
  "hexDigit c = (c \<in> set ''0123456789ABCDEFabcdef'')"

text \<open>
  \<^verbatim>\<open>macAddressRegex = ([0-9A-Fa-f]{2}:){5}[0-9A-Fa-f]{2}\<close>, matched at the start of the
  string: \<open>octets n\<close> is \<open>n\<close> octets with their colons and a last octet.
\<close>

fun octets :: "nat \<Rightarrow> string \<Rightarrow> bool" where
  "octets 0 (a # b # rest) = (hexDigit a \<and> hexDigit b)"
| "octets (Suc n) (a # b # c # rest) =
     (hexDigit a \<and> hexDigit b \<and> c = CHR '':'' \<and> octets n rest)"
| "octets _ _ = False"

definition addressMatcher :: "string \<Rightarrow> bool" where
  "addressMatcher s = matchAnywhere (octets 5) s"

subsection \<open>Errors\<close>

text \<open>
  A Go error value: the two context errors the program tells apart, any other error, and
  the wrappers of pkg/errors, which \<^verbatim>\<open>errors.Cause\<close> removes. \<^verbatim>\<open>nil\<close> is \<open>None\<close>
  of \<open>goerror option\<close>.
\<close>

datatype goerror =
    DeadlineExceeded
  | Canceled
  | OtherError string
  | WithMessage string goerror

fun errors_Cause :: "goerror \<Rightarrow> goerror" where
  "errors_Cause (WithMessage m err) = errors_Cause err"
| "errors_Cause err = err"

text \<open>
  The two ways the process stops early: \<^verbatim>\<open>log.Fatalf\<close> prints and calls
  \<^verbatim>\<open>os.Exit(1)\<close>; a panic that nothing recovers ends the process too. The string is the
  format string of the call.
\<close>

datatype abort = LogFatal string | GoPanic string

text \<open>\<^verbatim>\<open>chkErr\<close> (lines 331-341): \<open>Inr ()\<close> when it returns to its caller.\<close>

definition chkErr :: "goerror option \<Rightarrow> abort + unit" where
  "chkErr err =
     (case map_option errors_Cause err of
        None \<Rightarrow> Inr ()
      | Some DeadlineExceeded \<Rightarrow> Inr ()
      | Some Canceled \<Rightarrow> Inr ()
      | Some other \<Rightarrow> Inl (LogFatal ''err.Error()''))"

subsection \<open>The registry of known sensors\<close>

record sensorInfo =
  sensorName :: string
  mqttTopic :: string

text \<open>
  A section of the settings file as ini.v1 hands it over: its name, and its keys
  (\<^verbatim>\<open>GetKey\<close> fails on a key that is not there).
\<close>

record iniSection =
  secName :: string
  GetKey :: "string \<rightharpoonup> string"

type_synonym registry = "(string \<times> sensorInfo) list"

text \<open>The loop of \<^verbatim>\<open>loadKnownSensors\<close> over the sections (lines 80-105).\<close>

fun loadSections :: "iniSection list \<Rightarrow> registry \<Rightarrow> abort + registry" where
  "loadSections [] knownSensors = Inr knownSensors"
| "loadSections (sec # secs) knownSensors =
     (let addressOrName = secName sec in
      if \<not> addressMatcher (toLower addressOrName) \<and> \<not> atcMatcher addressOrName
      then loadSections secs knownSensors
      else
        (case GetKey sec ''sensorname'' of
           None \<Rightarrow> Inl (LogFatal ''can't get sensor name: %s'')
         | Some sensorname \<Rightarrow>
             (case GetKey sec ''topic'' of
                None \<Rightarrow> Inl (LogFatal ''can't get MQTT topic: %s'')
              | Some topic \<Rightarrow>
                  loadSections secs
                    (AList.update (toLower addressOrName)
                       \<lparr>sensorName = toLower sensorname, mqttTopic = topic\<rparr>
                       knownSensors))))"

text \<open>
  \<^verbatim>\<open>loadKnownSensors\<close> (lines 57-108); its argument is what \<^verbatim>\<open>ini.Load\<close> returned for
  the settings file.
\<close>

definition loadKnownSensors :: "goerror + iniSection list \<Rightarrow> abort + registry" where
  "loadKnownSensors iniFile =
     (case iniFile of
        Inl err \<Rightarrow> Inl (LogFatal ''can't load device settings file: %s'')
      | Inr sections \<Rightarrow> loadSections sections [])"

subsection \<open>Matching advertisements\<close>

record advertisement =
  adAddr :: string
  adLocalName :: string

text \<open>The handler passed to \<^verbatim>\<open>ble.Scan\<close> (lines 141-153), on one advertisement.\<close>

definition scanCallback :: "registry \<Rightarrow> advertisement \<Rightarrow> registry \<Rightarrow> registry" where
  "scanCallback knownSensors a foundDevices =
     (let deviceAddress = toLower (adAddr a);
          deviceLocalName = adLocalName a
      in case map_of knownSensors deviceAddress of
           Some info \<Rightarrow> AList.update deviceAddress info foundDevices
         | None \<Rightarrow>
             (case map_of knownSensors deviceLocalName of
                Some info \<Rightarrow> AList.update deviceLocalName info foundDevices
              | None \<Rightarrow> foundDevices))"

text \<open>The scan: the handler runs on every advertisement, in the order observed.\<close>

definition bleScan :: "registry \<Rightarrow> advertisement list \<Rightarrow> registry" where
  "bleScan knownSensors ads = fold (scanCallback knownSensors) ads []"

subsection \<open>Decoding\<close>

text \<open>
  \<^verbatim>\<open>parseLittleEndianValue\<close> (lines 270-272). Indexing a slice past its length is a
  run-time panic in Go; the function has no other check.
\<close>

definition parseLittleEndianValue :: "byte list \<Rightarrow> abort + uint16" where
  "parseLittleEndianValue b =
     (case b of
        b0 # b1 # rest \<Rightarrow> Inr ((ucast b0 :: uint16) OR push_bit 8 (ucast b1 :: uint16))
      | _ \<Rightarrow> Inl (GoPanic ''index out of range''))"

text \<open>
  The float32 arithmetic of line 298. A finite float32 is the rational it stands for.
  \<open>float32_round\<close> is IEEE 754 rounding to the nearest number with a significand of 24
  bits, ties to even, in the range of the normal numbers (the quotients of line 298 are 0
  or lie between 1/10 and 6553.5, far from the subnormal numbers and from overflow).
  \<open>ilog2 x\<close> is the exponent of \<open>x\<close>: the integer \<open>e\<close> with \<open>2^e \<le> x < 2^(e+1)\<close>.
\<close>

definition ilog2 :: "rat \<Rightarrow> int" where
  "ilog2 x =
     (if 1 \<le> x then int (floorlog 2 (nat \<lfloor>x\<rfloor>)) - 1
      else - int (floorlog 2 (nat (\<lceil>1 / x\<rceil> - 1))))"

definition round_half_even :: "rat \<Rightarrow> int" where
  "round_half_even x =
     (let f = \<lfloor>x\<rfloor>; d = x - of_int f
      in if d < 1 / 2 then f else if 1 / 2 < d then f + 1 else if even f then f else f + 1)"

definition float32_round :: "rat \<Rightarrow> rat" where
  "float32_round x =
     (if x = 0 then 0
      else let u = 2 powi (ilog2 \<bar>x\<bar> - 23) in of_int (round_half_even (x / u)) * u)"

text \<open>\<^verbatim>\<open>float32(v)\<close> of a uint16 (exact, but rounded as the conversion is) and \<^verbatim>\<open>x / y\<close>.\<close>

definition float32_of_uint16 :: "uint16 \<Rightarrow> rat" where
  "float32_of_uint16 v = float32_round (of_nat (unat v))"

definition float32_div :: "rat \<Rightarrow> rat \<Rightarrow> rat" where
  "float32_div x y = float32_round (x / y)"

subsection \<open>Polling one device\<close>

definition environmentUUID :: string where "environmentUUID = ''181a''"
definition temperatureUUID :: string where "temperatureUUID = ''2a1f''"
definition humidityUUID :: string where "humidityUUID = ''2a6f''"
definition batteryServiceUUID :: string where "batteryServiceUUID = ''180f''"
definition batteryLevelUUID :: string where "batteryLevelUUID = ''2a19''"

text \<open>
  Modelled from the spec: \<^verbatim>\<open>ble.CharRead\<close>, the bit of a characteristic's property
  that the spec calls "readable". It is a constant of go-ble, not of this repository; its
  number is the one of the Bluetooth GATT properties.
\<close>

definition CharRead :: int where "CharRead = 2"

record characteristic =
  cUUID :: string
  cProperty :: int

record service =
  sUUID :: string
  Characteristics :: "characteristic list"

text \<open>
  The connected client (\<^verbatim>\<open>ble.Client\<close>): its address, what \<^verbatim>\<open>DiscoverProfile\<close>
  returns (the services of the profile, or an error) and what \<^verbatim>\<open>ReadCharacteristic\<close>
  returns for a characteristic (the raw bytes, or an error).
\<close>

record client =
  clnAddr :: string
  DiscoverProfile :: "goerror + service list"
  ReadCharacteristic :: "characteristic \<Rightarrow> goerror + byte list"

text \<open>The values a payload (\<^verbatim>\<open>map[string]interface{}\<close>) holds, by their Go type.\<close>

datatype pvalue =
    Float32 rat
  | Uint16 uint16
  | Int64 int
  | String string

type_synonym payload = "(string \<times> pvalue) list"

text \<open>What the program asks of the BLE stack and of the MQTT client, in order.\<close>

datatype event =
    BleScan
  | BleConnect string
  | BleDiscoverProfile
  | BleReadCharacteristic string
  | BleCancelConnection
  | BleAwaitDisconnected
  | MqttConnect
  | MqttPublish string payload
  | MqttDisconnect

text \<open>
  The body of the inner loop of \<^verbatim>\<open>readCharacteristics\<close> (lines 289-303) on one
  characteristic: the events, and the payload after it or the panic.
\<close>

definition readOne :: "client \<Rightarrow> characteristic \<Rightarrow> payload \<Rightarrow> event list \<times> (abort + payload)" where
  "readOne cln c payload =
     (if cProperty c AND CharRead \<noteq> 0 then
        (case ReadCharacteristic cln c of
           Inl err \<Rightarrow> ([BleReadCharacteristic (cUUID c)], Inr payload)
         | Inr b \<Rightarrow>
             ([BleReadCharacteristic (cUUID c)],
              if cUUID c = temperatureUUID then
                (case parseLittleEndianValue b of
                   Inl p \<Rightarrow> Inl p
                 | Inr v \<Rightarrow>
                     Inr (AList.update ''temperature''
                            (Float32 (float32_div (float32_of_uint16 v) 10)) payload))
              else if cUUID c = humidityUUID then
                (case parseLittleEndianValue b of
                   Inl p \<Rightarrow> Inl p
                 | Inr v \<Rightarrow> Inr (AList.update ''humidity'' (Uint16 (v div 100)) payload))
              else Inr payload))
      else ([], Inr payload))"

text \<open>The inner loop (line 284) over the characteristics of one service.\<close>

fun readAll :: "client \<Rightarrow> characteristic list \<Rightarrow> payload \<Rightarrow> event list \<times> (abort + payload)" where
  "readAll cln [] payload = ([], Inr payload)"
| "readAll cln (c # cs) payload =
     (case readOne cln c payload of
        (evs, Inl p) \<Rightarrow> (evs, Inl p)
      | (evs, Inr payload') \<Rightarrow>
          (case readAll cln cs payload' of (evs', r) \<Rightarrow> (evs @ evs', r)))"

text \<open>
  The outer loop (lines 276-307) over the services. \<open>now\<close> is \<^verbatim>\<open>time.Now().UnixMilli()\<close>;
  the division of line 306 is Go's integer division, which truncates.
\<close>

fun readServices :: "client \<Rightarrow> int \<Rightarrow> service list \<Rightarrow> payload \<Rightarrow> event list \<times> (abort + payload)" where
  "readServices cln now [] payload = ([], Inr payload)"
| "readServices cln now (s # ss) payload =
     (if sUUID s \<noteq> environmentUUID \<and> sUUID s \<noteq> batteryServiceUUID
      then readServices cln now ss payload
      else
        (case readAll cln (Characteristics s) payload of
           (evs, Inl p) \<Rightarrow> (evs, Inl p)
         | (evs, Inr payload') \<Rightarrow>
             (case readServices cln now ss
                     (AList.update ''timestamp'' (Int64 (now sdiv 1000)) payload') of
                (evs', r) \<Rightarrow> (evs @ evs', r))))"

text \<open>\<^verbatim>\<open>readCharacteristics\<close> (lines 274-310), on the services of the profile.\<close>

definition readCharacteristics :: "client \<Rightarrow> int \<Rightarrow> service list \<Rightarrow> event list \<times> (abort + payload)" where
  "readCharacteristics cln now p = readServices cln now p []"

text \<open>
  \<^verbatim>\<open>getDeviceData\<close> (lines 227-268). \<open>connect\<close> is what \<^verbatim>\<open>ble.Connect\<close> returns for
  the filter of this device. The function returns its payload and a nil error, or the
  process ends inside it: \<^verbatim>\<open>log.Fatalf\<close> does not return, so the
  \<^verbatim>\<open>return nil, err\<close> of line 236 is never reached. \<open>BleAwaitDisconnected\<close> is the
  receive from \<^verbatim>\<open>done\<close> of line 265, the channel that the goroutine of lines 244-248
  closes once the client reports the disconnection.
\<close>

definition getDeviceData ::
  "(string \<Rightarrow> goerror + client) \<Rightarrow> int \<Rightarrow> string \<Rightarrow> sensorInfo
     \<Rightarrow> event list \<times> (abort + payload \<times> goerror option)" where
  "getDeviceData connect now nameOrAddress info =
     (case connect nameOrAddress of
        Inl err \<Rightarrow>
          ([BleConnect nameOrAddress], Inl (LogFatal ''failed to connect to %s: %s''))
      | Inr cln \<Rightarrow>
          (case DiscoverProfile cln of
             Inl err \<Rightarrow>
               ([BleConnect nameOrAddress, BleDiscoverProfile],
                Inl (LogFatal ''can't discover profile: %s''))
           | Inr p \<Rightarrow>
               (case readCharacteristics cln now p of
                  (evs, Inl a) \<Rightarrow> (BleConnect nameOrAddress # BleDiscoverProfile # evs, Inl a)
                | (evs, Inr payload) \<Rightarrow>
                    (BleConnect nameOrAddress # BleDiscoverProfile # evs
                       @ [BleCancelConnection, BleAwaitDisconnected],
                     Inr (AList.update ''sensorname'' (String (sensorName info))
                            (AList.update ''address'' (String (clnAddr cln)) payload),
                          None)))))"

subsection \<open>The cycle\<close>

text \<open>
  What the outside gives one run of \<^verbatim>\<open>main\<close>: the settings file as loaded, the result
  of \<^verbatim>\<open>dev.NewDevice\<close>, the advertisements the scan observes and the error it ends with,
  the devices, the clock, the result of the MQTT connection, and the order in which
  \<^verbatim>\<open>range\<close> visits the keys of \<^verbatim>\<open>foundDevices\<close> and of \<^verbatim>\<open>payloads\<close>.
\<close>

record env =
  iniLoad :: "goerror + iniSection list"
  newDevice :: "goerror option"
  scanAds :: "advertisement list"
  scanErr :: "goerror option"
  bleConnect :: "string \<Rightarrow> goerror + client"
  nowMilli :: int
  mqttConnectErr :: "goerror option"
  deviceRank :: "string \<Rightarrow> nat"
  topicRank :: "string \<Rightarrow> nat"

text \<open>\<^verbatim>\<open>range\<close> over a map: its entries in the order of the ranking of their keys.\<close>

definition rangeOrder :: "(string \<Rightarrow> nat) \<Rightarrow> (string \<times> 'v) list \<Rightarrow> (string \<times> 'v) list" where
  "rangeOrder rank m = sort_key (\<lambda>kv. rank (fst kv)) m"

type_synonym payloads = "(string \<times> payload) list"

text \<open>
  Line 174: \<^verbatim>\<open>knownSensors[deviceName].mqttTopic\<close>; a key that is not in a Go map gives
  the zero value, whose topic is the empty string.
\<close>

definition topicOf :: "registry \<Rightarrow> string \<Rightarrow> string" where
  "topicOf knownSensors deviceName =
     (case map_of knownSensors deviceName of Some info \<Rightarrow> mqttTopic info | None \<Rightarrow> [])"

text \<open>
  The polling loop of \<^verbatim>\<open>main\<close> (lines 169-179) over the found devices in the order
  given, from the payloads collected so far.
\<close>

fun main_poll :: "env \<Rightarrow> registry \<Rightarrow> registry \<Rightarrow> payloads \<Rightarrow> event list \<times> (abort + payloads)" where
  "main_poll e knownSensors [] payloads = ([], Inr payloads)"
| "main_poll e knownSensors ((deviceName, info) # rest) payloads =
     (case getDeviceData (bleConnect e) (nowMilli e) deviceName info of
        (evs, Inl a) \<Rightarrow> (evs, Inl a)
      | (evs, Inr (payload, err)) \<Rightarrow>
          (case main_poll e knownSensors rest
                  (if err = None
                   then AList.update (topicOf knownSensors deviceName) payload payloads
                   else payloads) of
             (evs', r) \<Rightarrow> (evs @ evs', r)))"

text \<open>
  The publishing block of \<^verbatim>\<open>main\<close> (lines 183-222). \<^verbatim>\<open>json.Marshal\<close> cannot fail on
  the values a payload holds, and the event carries the payload itself, not its JSON text.
\<close>

definition main_publish :: "env \<Rightarrow> payloads \<Rightarrow> event list \<times> (abort + unit)" where
  "main_publish e payloads =
     (if length payloads > 0 then
        (case mqttConnectErr e of
           Some err \<Rightarrow> ([MqttConnect], Inl (GoPanic ''token.Error()''))
         | None \<Rightarrow>
             (MqttConnect
                # map (\<lambda>(topic, payload). MqttPublish topic payload)
                    (rangeOrder (topicRank e) payloads)
                @ [MqttDisconnect],
              Inr ()))
      else ([], Inr ()))"

text \<open>
  \<^verbatim>\<open>main\<close> (lines 110-225): the events of the run, and \<open>Inr ()\<close> when \<^verbatim>\<open>main\<close>
  returns (exit status 0) or the way the process ended otherwise.
\<close>

definition main :: "env \<Rightarrow> event list \<times> (abort + unit)" where
  "main e =
     (case loadKnownSensors (iniLoad e) of
        Inl a \<Rightarrow> ([], Inl a)
      | Inr knownSensors \<Rightarrow>
          if length knownSensors = 0 then ([], Inr ())
          else
            (case newDevice e of
               Some err \<Rightarrow> ([], Inl (LogFatal ''can't new device : %s''))
             | None \<Rightarrow>
                 (let foundDevices = bleScan knownSensors (scanAds e) in
                  case chkErr (scanErr e) of
                    Inl a \<Rightarrow> ([BleScan], Inl a)
                  | Inr u \<Rightarrow>
                      if length foundDevices = 0 then ([BleScan], Inr ())
                      else
                        (case main_poll e knownSensors
                                (rangeOrder (deviceRank e) foundDevices) [] of
                           (evs, Inl a) \<Rightarrow> (BleScan # evs, Inl a)
                         | (evs, Inr payloads) \<Rightarrow>
                             (case main_publish e payloads of
                                (evs', r) \<Rightarrow> (BleScan # evs @ evs', r))))))"

text \<open>
  The key under which the handler of the scan records an advertisement, if it records it:
  the lower-cased address when that is a key of the registry, else the local name (as
  advertised) when that is one.
\<close>

definition matchKey :: "registry \<Rightarrow> advertisement \<Rightarrow> string option" where
  "matchKey knownSensors a =
     (if map_of knownSensors (toLower (adAddr a)) \<noteq> None then Some (toLower (adAddr a))
      else if map_of knownSensors (adLocalName a) \<noteq> None then Some (adLocalName a)
      else None)"

subsection \<open>Example inputs\<close>

text \<open>
  A settings file with two sensors that share one topic, the two advertisements of these
  sensors, and a device that offers the environment service with a readable temperature
  (raw 215) and a readable humidity (raw 4500). The scan ends by its deadline.
\<close>

definition exSettings :: "iniSection list" where
  "exSettings =
     [\<lparr>secName = ''A4:C1:38:0C:5B:45'',
       GetKey = [''sensorname'' \<mapsto> ''Desk'', ''topic'' \<mapsto> ''temperature/room'']\<rparr>,
      \<lparr>secName = ''A4:C1:38:0C:5B:46'',
       GetKey = [''sensorname'' \<mapsto> ''Shelf'', ''topic'' \<mapsto> ''temperature/room'']\<rparr>]"

text \<open>The registry this settings file loads as; the scan below finds both sensors.\<close>

definition exKnown :: registry where
  "exKnown =
     [(''a4:c1:38:0c:5b:45'', \<lparr>sensorName = ''desk'', mqttTopic = ''temperature/room''\<rparr>),
      (''a4:c1:38:0c:5b:46'', \<lparr>sensorName = ''shelf'', mqttTopic = ''temperature/room''\<rparr>)]"

definition exAds :: "advertisement list" where
  "exAds =
     [\<lparr>adAddr = ''a4:c1:38:0c:5b:45'', adLocalName = ''ATC_0C5B45''\<rparr>,
      \<lparr>adAddr = ''a4:c1:38:0c:5b:46'', adLocalName = ''ATC_0C5B46''\<rparr>]"

definition exProfile :: "service list" where
  "exProfile =
     [\<lparr>sUUID = environmentUUID,
       Characteristics =
         [\<lparr>cUUID = temperatureUUID, cProperty = 2\<rparr>,
          \<lparr>cUUID = humidityUUID, cProperty = 2\<rparr>]\<rparr>]"

definition exReads :: "characteristic \<Rightarrow> goerror + byte list" where
  "exReads c =
     (if cUUID c = temperatureUUID then Inr [0xD7, 0x00]
      else if cUUID c = humidityUUID then Inr [0x94, 0x11]
      else Inl (OtherError ''attribute not found''))"

definition exClient :: "string \<Rightarrow> client" where
  "exClient a = \<lparr>clnAddr = a, DiscoverProfile = Inr exProfile, ReadCharacteristic = exReads\<rparr>"

definition exEnv :: env where
  "exEnv =
     \<lparr>iniLoad = Inr exSettings, newDevice = None, scanAds = exAds,
      scanErr = Some DeadlineExceeded, bleConnect = (\<lambda>d. Inr (exClient d)),
      nowMilli = 1700000000123, mqttConnectErr = None,
      deviceRank = (\<lambda>k. 0), topicRank = (\<lambda>k. 0)\<rparr>"

text \<open>Is the event a read of a characteristic? Is it a publish call?\<close>

fun isRead :: "event \<Rightarrow> bool" where
  "isRead (BleReadCharacteristic uuid) = True"
| "isRead ev = False"

fun isPublish :: "event \<Rightarrow> bool" where
  "isPublish (MqttPublish topic payload) = True"
| "isPublish ev = False"

section \<open>Properties\<close>

subsection \<open>Bytes, words and float32 rounding\<close>

lemma round_half_even_cases:
  "round_half_even y = \<lfloor>y\<rfloor> \<and> y - of_int \<lfloor>y\<rfloor> \<le> 1 / 2
   \<or> round_half_even y = \<lfloor>y\<rfloor> + 1 \<and> 1 / 2 \<le> y - of_int \<lfloor>y\<rfloor>"
  by (simp add: round_half_even_def Let_def)

lemma round_half_even_error: "\<bar>of_int (round_half_even y) - y\<bar> \<le> 1 / 2"
proof -
  have b: "of_int \<lfloor>y\<rfloor> \<le> y" "y < of_int \<lfloor>y\<rfloor> + 1" by linarith+
  from round_half_even_cases [of y] show ?thesis
  proof
    assume "round_half_even y = \<lfloor>y\<rfloor> \<and> y - of_int \<lfloor>y\<rfloor> \<le> 1 / 2"
    with b show ?thesis by simp
  next
    assume "round_half_even y = \<lfloor>y\<rfloor> + 1 \<and> 1 / 2 \<le> y - of_int \<lfloor>y\<rfloor>"
    with b show ?thesis by simp
  qed
qed

lemma round_half_even_int: "round_half_even (of_int n) = n"
  by (simp add: round_half_even_def)

lemma round_half_even_near:
  assumes "\<bar>y - of_int n\<bar> < 1 / 2"
  shows "round_half_even y = n"
proof -
  have "\<bar>of_int (round_half_even y) - y\<bar> \<le> 1 / 2" by (rule round_half_even_error)
  with assms have "\<bar>(of_int (round_half_even y) :: rat) - of_int n\<bar> < 1" by linarith
  then have "\<bar>of_int (round_half_even y - n) :: rat\<bar> < 1" by simp
  then have "\<bar>round_half_even y - n\<bar> < 1" by (metis of_int_abs of_int_less_1_iff)
  then show ?thesis by linarith
qed

lemma unat_byte_less: "unat (b :: 8 word) < 256"
  using unsigned_less [of b, where ?'a = nat] by simp

lemma unat_ucast_8_16: "unat (ucast (b :: 8 word) :: 16 word) = unat b"
proof -
  have "unat b < 2 ^ 16" using unat_byte_less [of b] by simp
  then show ?thesis by (simp add: unsigned_ucast_eq take_bit_nat_eq_self)
qed

lemma unat_shift_8_16: "unat (push_bit 8 (ucast (b :: 8 word) :: 16 word)) = 256 * unat b"
proof -
  have small: "unat b * 256 < 65536" using unat_byte_less [of b] by simp
  have "unat (push_bit 8 (ucast b :: 16 word)) = (unat b * 256) mod 65536"
    by (simp add: push_bit_eq_mult unat_word_ariths unat_ucast_8_16)
  with small show ?thesis by simp
qed

lemma bytes_disjoint:
  "(ucast (b0 :: 8 word) :: 16 word) AND push_bit 8 (ucast (b1 :: 8 word)) = 0"
  by (rule bit_word_eqI) (auto simp add: bit_simps dest: bit_imp_le_length)

lemma unat_little_endian:
  "unat ((ucast (b0 :: 8 word) :: 16 word) OR push_bit 8 (ucast (b1 :: 8 word)))
     = unat b0 + 256 * unat b1"
proof -
  let ?lo = "ucast b0 :: 16 word" and ?hi = "push_bit 8 (ucast b1 :: 16 word)"
  have "?lo OR ?hi = ?lo + ?hi"
    by (rule disjunctive_add_eq_or [symmetric]) (rule bytes_disjoint)
  moreover have "unat ?lo + unat ?hi < 2 ^ LENGTH(16)"
    using unat_byte_less [of b0] unat_byte_less [of b1]
    by (simp add: unat_ucast_8_16 unat_shift_8_16)
  then have "unat (?lo + ?hi) = unat ?lo + unat ?hi"
    by (simp only: unat_add_lem)
  ultimately show ?thesis by (simp add: unat_ucast_8_16 unat_shift_8_16)
qed

lemma unat_uint16_div: "unat ((v :: 16 word) div 100) = unat v div 100"
  by (simp add: unat_div)

lemma pow_le_of_nat: "2 ^ k \<le> (n::nat) \<Longrightarrow> (2::rat) ^ k \<le> of_nat n"
  by (metis of_nat_le_iff of_nat_numeral of_nat_power)

lemma of_nat_Suc_le_pow: "(n::nat) < 2 ^ k \<Longrightarrow> (of_nat n :: rat) + 1 \<le> 2 ^ k"
proof -
  assume "n < 2 ^ k"
  then have "n + 1 \<le> 2 ^ k" by simp
  then have "(of_nat (n + 1) :: rat) \<le> of_nat (2 ^ k)" by (simp only: of_nat_le_iff)
  then show ?thesis by simp
qed

lemma ilog2_bounds:
  assumes "0 < x"
  shows "2 powi (ilog2 x) \<le> x \<and> x < 2 powi (ilog2 x + 1)"
proof (cases "1 \<le> x")
  case True
  define n where "n = nat \<lfloor>x\<rfloor>"
  define k where "k = floorlog 2 n"
  have f1: "1 \<le> \<lfloor>x\<rfloor>" using True by (simp add: le_floor_iff)
  then have n1: "1 \<le> n" unfolding n_def by linarith
  have "of_nat n = (of_int \<lfloor>x\<rfloor> :: rat)" using f1 by (simp add: n_def)
  then have nx: "of_nat n \<le> x" "x < of_nat n + 1" by linarith+
  have fl: "2 ^ (k - 1) \<le> n" "n < 2 ^ k"
    using floorlog_bounds [of n 2] n1 by (simp_all add: k_def)
  have pos: "0 < k" using n1 by (simp add: floorlog_def k_def)
  have e: "ilog2 x = int (k - 1)"
    using True pos by (simp add: ilog2_def n_def k_def)
  have e1: "ilog2 x + 1 = int k"
    using e pos by simp
  have p1: "2 powi (ilog2 x) = (2::rat) ^ (k - 1)" unfolding e by simp
  have p2: "2 powi (ilog2 x + 1) = (2::rat) ^ k" unfolding e1 by simp
  have lo: "2 powi (ilog2 x) \<le> x"
    using pow_le_of_nat [OF fl(1)] nx(1) unfolding p1 by linarith
  have hi: "x < 2 powi (ilog2 x + 1)"
    using of_nat_Suc_le_pow [OF fl(2)] nx(2) unfolding p2 by linarith
  from lo hi show ?thesis ..
next
  case False
  define y where "y = 1 / x"
  define m where "m = nat (\<lceil>y\<rceil> - 1)"
  define k where "k = floorlog 2 m"
  have y1: "1 < y" using assms False by (simp add: y_def)
  have c2: "2 \<le> \<lceil>y\<rceil>" using y1 by (simp add: le_ceiling_iff)
  have "of_nat m = (of_int \<lceil>y\<rceil> :: rat) - 1" using c2 by (simp add: m_def)
  then have my: "of_nat m < y" "y \<le> of_nat m + 1" by linarith+
  have m1: "1 \<le> m" using c2 unfolding m_def by linarith
  have fl: "2 ^ (k - 1) \<le> m" "m < 2 ^ k"
    using floorlog_bounds [of m 2] m1 by (simp_all add: k_def)
  have pos: "0 < k" using m1 by (simp add: floorlog_def k_def)
  have e: "ilog2 x = - int k"
    using False by (simp add: ilog2_def m_def y_def k_def)
  have e1: "ilog2 x + 1 = - int (k - 1)"
    using e pos by simp
  have p1: "2 powi (ilog2 x) = 1 / (2::rat) ^ k"
    unfolding e by (simp add: power_int_minus_divide)
  have p2: "2 powi (ilog2 x + 1) = 1 / (2::rat) ^ (k - 1)"
    unfolding e1 by (simp add: power_int_minus_divide)
  have xy: "x = 1 / y" using assms by (simp add: y_def)
  have "y \<le> 2 ^ k" using of_nat_Suc_le_pow [OF fl(2)] my(2) by linarith
  then have "1 / (2::rat) ^ k \<le> 1 / y" using y1 by (simp add: frac_le)
  then have lo: "2 powi (ilog2 x) \<le> x" unfolding p1 using xy by simp
  have "2 ^ (k - 1) < y" using pow_le_of_nat [OF fl(1)] my(1) by linarith
  then have "1 / y < 1 / (2::rat) ^ (k - 1)" by (simp add: frac_less2)
  then have hi: "x < 2 powi (ilog2 x + 1)" unfolding p2 using xy by simp
  from lo hi show ?thesis ..
qed

lemma ilog2_less:
  assumes "0 < x" "x < 2 ^ n"
  shows "ilog2 x < int n"
proof -
  have "2 powi (ilog2 x) < (2::rat) powi (int n)"
    using ilog2_bounds [OF assms(1)] assms(2) by simp
  then show ?thesis
    by (rule power_int_le_imp_less_exp [rotated]) simp_all
qed

lemma float32_round_error:
  assumes "x \<noteq> 0"
  shows "\<bar>float32_round x - x\<bar> \<le> 2 powi (ilog2 \<bar>x\<bar> - 23) / 2"
proof -
  define u :: rat where "u = 2 powi (ilog2 \<bar>x\<bar> - 23)"
  have u: "0 < u" by (simp add: u_def)
  have "float32_round x - x = (of_int (round_half_even (x / u)) - x / u) * u"
    using assms u by (simp add: float32_round_def u_def [symmetric] Let_def algebra_simps)
  then have "\<bar>float32_round x - x\<bar> = \<bar>of_int (round_half_even (x / u)) - x / u\<bar> * u"
    using u by (simp add: abs_mult)
  also have "\<dots> \<le> (1 / 2) * u"
    using round_half_even_error [of "x / u"] u by (intro mult_right_mono) simp_all
  finally show ?thesis by (simp add: u_def)
qed

lemma float32_round_of_nat:
  assumes "n < 2 ^ 24"
  shows "float32_round (of_nat n) = of_nat n"
proof (cases "n = 0")
  case True
  then show ?thesis by (simp add: float32_round_def)
next
  case False
  define k where "k = nat (23 - ilog2 (of_nat n))"
  have pos: "(0::rat) < of_nat n" using False by simp
  have "(of_nat n :: rat) < 2 ^ 24"
    using assms by (metis of_nat_less_iff of_nat_numeral of_nat_power)
  then have "ilog2 (of_nat n) < 24" using ilog2_less [OF pos, of 24] by simp
  then have e: "ilog2 (of_nat n) - 23 = - int k" by (simp add: k_def)
  have u: "(2::rat) powi (ilog2 (of_nat n) - 23) = 1 / 2 ^ k"
    unfolding e by (simp add: power_int_minus_divide)
  have "(of_nat n :: rat) / (1 / 2 ^ k) = of_int (int n * 2 ^ k)" by simp
  then have r: "round_half_even (of_nat n / (1 / 2 ^ k)) = int n * 2 ^ k"
    by (simp only: round_half_even_int)
  have "float32_round (of_nat n)
          = of_int (round_half_even (of_nat n / (1 / 2 ^ k))) * (1 / 2 ^ k)"
    using False unfolding float32_round_def Let_def by (simp only: abs_of_nat u) simp
  also have "\<dots> = of_int (int n * 2 ^ k) * (1 / 2 ^ k)" by (simp only: r)
  also have "\<dots> = of_nat n" by simp
  finally show ?thesis .
qed

lemma float32_of_uint16_exact: "float32_of_uint16 v = of_nat (unat v)"
proof -
  have "unat v < 2 ^ 16" using unsigned_less [of v, where ?'a = nat] by simp
  then have "unat v < 2 ^ 24" by simp
  then show ?thesis unfolding float32_of_uint16_def by (rule float32_round_of_nat)
qed

lemma float32_tenth:
  assumes "n < 65536"
  shows "\<bar>float32_div (of_nat n) 10 - of_nat n / 10\<bar> \<le> 1 / 4096"
proof (cases "n = 0")
  case True
  then show ?thesis by (simp add: float32_div_def float32_round_def)
next
  case False
  define x :: rat where "x = of_nat n / 10"
  have pos: "0 < x" using False by (simp add: x_def)
  have "(of_nat n :: rat) < of_nat 65536" using assms by (simp only: of_nat_less_iff)
  then have "x < 2 ^ 13" by (simp add: x_def)
  then have "ilog2 x < 13" using ilog2_less [OF pos, of 13] by simp
  then have "ilog2 \<bar>x\<bar> - 23 \<le> - 11" using pos by simp
  then have "(2::rat) powi (ilog2 \<bar>x\<bar> - 23) \<le> 2 powi (- 11)"
    by (rule power_int_increasing) simp
  then have "(2::rat) powi (ilog2 \<bar>x\<bar> - 23) / 2 \<le> 1 / 4096"
    by (simp add: power_int_minus_divide)
  moreover have "\<bar>float32_round x - x\<bar> \<le> 2 powi (ilog2 \<bar>x\<bar> - 23) / 2"
    using pos by (intro float32_round_error) simp
  ultimately show ?thesis unfolding float32_div_def x_def by linarith
qed

lemma float32_tenth_rounds_back:
  assumes "n < 65536"
  shows "round_half_even (10 * float32_div (of_nat n) 10) = int n"
proof -
  have "\<bar>10 * float32_div (of_nat n) 10 - of_int (int n)\<bar>
          = 10 * \<bar>float32_div (of_nat n) 10 - of_nat n / 10\<bar>"
    by (simp add: abs_if)
  also have "\<dots> \<le> 10 * (1 / 4096)"
    using float32_tenth [OF assms] by (intro mult_left_mono) simp_all
  finally have "\<bar>10 * float32_div (of_nat n) 10 - of_int (int n)\<bar> < 1 / 2" by simp
  then show ?thesis by (rule round_half_even_near)
qed

subsection \<open>Decoding a characteristic\<close>

lemma uuid_distinct: "temperatureUUID \<noteq> humidityUUID"
  by (simp add: temperatureUUID_def humidityUUID_def)

lemma parse_two_bytes:
  "parseLittleEndianValue (b0 # b1 # rest) = Inr (ucast b0 OR push_bit 8 (ucast b1))"
  by (simp add: parseLittleEndianValue_def)

lemma parse_short:
  "length b < 2 \<Longrightarrow> parseLittleEndianValue b = Inl (GoPanic ''index out of range'')"
  by (cases b rule: list.exhaust [case_product list.exhaust])
     (auto simp add: parseLittleEndianValue_def split: list.splits)

lemma parse_long:
  "2 \<le> length b \<Longrightarrow>
     parseLittleEndianValue b = Inr (ucast (b ! 0) OR push_bit 8 (ucast (b ! 1)))"
  by (auto simp add: parseLittleEndianValue_def split: list.splits)

lemma readOne_temperature:
  assumes "cProperty c AND CharRead \<noteq> 0"
    and "ReadCharacteristic cln c = Inr (b0 # b1 # rest)"
    and "cUUID c = temperatureUUID"
  shows "snd (readOne cln c payload)
           = Inr (AList.update ''temperature''
                    (Float32 (float32_div (float32_of_uint16 (ucast b0 OR push_bit 8 (ucast b1))) 10))
                    payload)"
  using assms by (simp add: readOne_def parse_two_bytes)

lemma readOne_humidity:
  assumes "cProperty c AND CharRead \<noteq> 0"
    and "ReadCharacteristic cln c = Inr (b0 # b1 # rest)"
    and "cUUID c = humidityUUID"
  shows "snd (readOne cln c payload)
           = Inr (AList.update ''humidity''
                    (Uint16 ((ucast b0 OR push_bit 8 (ucast b1)) div 100)) payload)"
  using assms uuid_distinct by (simp add: readOne_def parse_two_bytes)

lemma float32_250: "float32_div (float32_of_uint16 250) 10 = 25"
  by code_simp

lemma le_250: "(ucast (0xFA :: byte) :: uint16) OR push_bit 8 (ucast (0x00 :: byte)) = 250"
  by simp

lemma le_10000: "(ucast (0x10 :: byte) :: uint16) OR push_bit 8 (ucast (0x27 :: byte)) = 10000"
  by simp

lemma uint16_10000: "(10000 :: uint16) div 100 = 100"
  by simp

text \<open>
  Claim C3. A successful read of a readable characteristic that returns at least two bytes
  is decoded from its first two bytes as a little-endian unsigned 16-bit number \<open>v\<close>. For
  the temperature characteristic the payload gets the float32 quotient \<open>v / 10\<close>: the
  float32 nearest to \<open>v / 10\<close>, within 1/4096 of it, so that rounding it to one decimal
  place gives back exactly \<open>v / 10\<close>; the bytes FA 00 (250) give 25. For the humidity
  characteristic the payload gets the uint16 \<open>v div 100\<close>; the bytes 10 27 (10000) give
  100.
\<close>

theorem decoding_little_endian_uint16:
  assumes "cProperty c AND CharRead \<noteq> 0"
    and "ReadCharacteristic cln c = Inr (b0 # b1 # rest)"
  shows "\<exists>v. parseLittleEndianValue (b0 # b1 # rest) = Inr v
           \<and> unat v = unat b0 + 256 * unat b1
           \<and> (cUUID c = temperatureUUID \<longrightarrow>
                (\<exists>t. snd (readOne cln c payload)
                        = Inr (AList.update ''temperature'' (Float32 t) payload)
                     \<and> t = float32_round (of_nat (unat v) / 10)
                     \<and> \<bar>t - of_nat (unat v) / 10\<bar> \<le> 1 / 4096
                     \<and> round_half_even (10 * t) = int (unat v)
                     \<and> (b0 = 0xFA \<and> b1 = 0x00 \<longrightarrow> t = 25)))
           \<and> (cUUID c = humidityUUID \<longrightarrow>
                (\<exists>h. snd (readOne cln c payload)
                        = Inr (AList.update ''humidity'' (Uint16 h) payload)
                     \<and> unat h = unat v div 100
                     \<and> (b0 = 0x10 \<and> b1 = 0x27 \<longrightarrow> h = 100)))"
proof -
  define v :: uint16 where "v = ucast b0 OR push_bit 8 (ucast b1)"
  define t where "t = float32_div (float32_of_uint16 v) 10"
  have small: "unat v < 65536" using unsigned_less [of v, where ?'a = nat] by simp
  have p: "parseLittleEndianValue (b0 # b1 # rest) = Inr v"
    by (simp add: parse_two_bytes v_def)
  have u: "unat v = unat b0 + 256 * unat b1"
    unfolding v_def by (rule unat_little_endian)
  have t_eq: "t = float32_round (of_nat (unat v) / 10)"
    by (simp add: t_def float32_div_def float32_of_uint16_exact)
  have t_err: "\<bar>t - of_nat (unat v) / 10\<bar> \<le> 1 / 4096"
    unfolding t_def float32_of_uint16_exact by (rule float32_tenth [OF small])
  have t_back: "round_half_even (10 * t) = int (unat v)"
    unfolding t_def float32_of_uint16_exact by (rule float32_tenth_rounds_back [OF small])
  have t_ex: "b0 = 0xFA \<and> b1 = 0x00 \<longrightarrow> t = 25"
    unfolding t_def v_def using float32_250 le_250 by auto
  have h_ex: "b0 = 0x10 \<and> b1 = 0x27 \<longrightarrow> v div 100 = 100"
    unfolding v_def using uint16_10000 le_10000 by auto
  have temp: "cUUID c = temperatureUUID \<longrightarrow>
                snd (readOne cln c payload)
                  = Inr (AList.update ''temperature'' (Float32 t) payload)"
    unfolding t_def v_def using readOne_temperature [OF assms] by simp
  have hum: "cUUID c = humidityUUID \<longrightarrow>
                snd (readOne cln c payload)
                  = Inr (AList.update ''humidity'' (Uint16 (v div 100)) payload)"
    unfolding v_def using readOne_humidity [OF assms] by simp
  have h_div: "unat (v div 100) = unat v div 100" by (rule unat_uint16_div)
  from p u temp t_eq t_err t_back t_ex hum h_div h_ex show ?thesis by blast
qed

theorem decoding_little_endian_uint16_witness:
  "cProperty \<lparr>cUUID = temperatureUUID, cProperty = 2\<rparr> AND CharRead \<noteq> 0
   \<and> snd (readOne
         \<lparr>clnAddr = ''a4:c1:38:0c:5b:45'', DiscoverProfile = Inr [],
            ReadCharacteristic = (\<lambda>c. Inr [0xFA, 0x00])\<rparr>
         \<lparr>cUUID = temperatureUUID, cProperty = 2\<rparr> [])
       = Inr [(''temperature'', Float32 25)]
   \<and> snd (readOne
         \<lparr>clnAddr = ''a4:c1:38:0c:5b:45'', DiscoverProfile = Inr [],
            ReadCharacteristic = (\<lambda>c. Inr [0x10, 0x27])\<rparr>
         \<lparr>cUUID = humidityUUID, cProperty = 2\<rparr> [])
       = Inr [(''humidity'', Uint16 100)]"
proof -
  let ?t = "\<lparr>cUUID = temperatureUUID, cProperty = 2\<rparr>"
  let ?h = "\<lparr>cUUID = humidityUUID, cProperty = 2\<rparr>"
  let ?clnT = "\<lparr>clnAddr = ''a4:c1:38:0c:5b:45'', DiscoverProfile = Inr [],
                 ReadCharacteristic = (\<lambda>c. Inr [0xFA, 0x00 :: byte])\<rparr>"
  let ?clnH = "\<lparr>clnAddr = ''a4:c1:38:0c:5b:45'', DiscoverProfile = Inr [],
                 ReadCharacteristic = (\<lambda>c. Inr [0x10, 0x27 :: byte])\<rparr>"
  have r: "cProperty ?t AND CharRead \<noteq> 0" "cProperty ?h AND CharRead \<noteq> 0"
    by (simp_all add: CharRead_def)
  have "ReadCharacteristic ?clnT ?t = Inr (0xFA # 0x00 # [])" by simp
  from decoding_little_endian_uint16 [OF r(1) this, of "[]"]
  have a: "snd (readOne ?clnT ?t []) = Inr [(''temperature'', Float32 25)]"
    by auto
  have "ReadCharacteristic ?clnH ?h = Inr (0x10 # 0x27 # [])" by simp
  from decoding_little_endian_uint16 [OF r(2) this, of "[]"]
  have b: "snd (readOne ?clnH ?h []) = Inr [(''humidity'', Uint16 100)]"
    by auto
  from r(1) a b show ?thesis by blast
qed

subsection \<open>A short read\<close>

lemma readOne_panic_only:
  "snd (readOne cln c payload) = Inl a \<Longrightarrow> a = GoPanic ''index out of range''"
  by (auto simp add: readOne_def parseLittleEndianValue_def
           split: if_splits sum.splits list.splits)

lemma readOne_short:
  assumes "length b < 2" "cProperty c AND CharRead \<noteq> 0" "ReadCharacteristic cln c = Inr b"
    and "cUUID c = temperatureUUID \<or> cUUID c = humidityUUID"
  shows "snd (readOne cln c payload) = Inl (GoPanic ''index out of range'')"
  using assms by (auto simp add: readOne_def parse_short)

lemma readAll_short:
  assumes "c \<in> set cs" "length b < 2" "cProperty c AND CharRead \<noteq> 0"
    and "ReadCharacteristic cln c = Inr b"
    and "cUUID c = temperatureUUID \<or> cUUID c = humidityUUID"
  shows "snd (readAll cln cs payload) = Inl (GoPanic ''index out of range'')"
  using assms(1)
proof (induction cs arbitrary: payload)
  case Nil
  then show ?case by simp
next
  case (Cons c' cs)
  obtain evs r where ro: "readOne cln c' payload = (evs, r)" by (cases "readOne cln c' payload")
  show ?case
  proof (cases r)
    case (Inl a)
    with ro readOne_panic_only [of cln c' payload a] show ?thesis by simp
  next
    case (Inr payload')
    have "c' \<noteq> c"
    proof
      assume "c' = c"
      with readOne_short [OF assms(2-5), of payload] ro Inr show False by simp
    qed
    with Cons.prems have "c \<in> set cs" by simp
    from Cons.IH [OF this, of payload'] ro Inr show ?thesis
      by (auto split: prod.splits)
  qed
qed

lemma readAll_panic_only:
  "snd (readAll cln cs payload) = Inl a \<Longrightarrow> a = GoPanic ''index out of range''"
proof (induction cs arbitrary: payload)
  case Nil
  then show ?case by simp
next
  case (Cons c cs)
  obtain evs r where ro: "readOne cln c payload = (evs, r)" by (cases "readOne cln c payload")
  show ?case
  proof (cases r)
    case (Inl a')
    with ro Cons.prems readOne_panic_only [of cln c payload a'] show ?thesis by simp
  next
    case (Inr payload')
    with ro Cons.prems have "snd (readAll cln cs payload') = Inl a"
      by (auto split: prod.splits)
    then show ?thesis by (rule Cons.IH)
  qed
qed

lemma readServices_short:
  assumes "s \<in> set p" "sUUID s = environmentUUID \<or> sUUID s = batteryServiceUUID"
    and "c \<in> set (Characteristics s)" "length b < 2" "cProperty c AND CharRead \<noteq> 0"
    and "ReadCharacteristic cln c = Inr b"
    and "cUUID c = temperatureUUID \<or> cUUID c = humidityUUID"
  shows "snd (readServices cln now p payload) = Inl (GoPanic ''index out of range'')"
  using assms(1)
proof (induction p arbitrary: payload)
  case Nil
  then show ?case by simp
next
  case (Cons s' ss)
  show ?case
  proof (cases "sUUID s' \<noteq> environmentUUID \<and> sUUID s' \<noteq> batteryServiceUUID")
    case True
    with assms(2) have "s' \<noteq> s" by auto
    with Cons.prems have "s \<in> set ss" by simp
    from Cons.IH [OF this, of payload] True show ?thesis by simp
  next
    case False
    obtain evs r where ra: "readAll cln (Characteristics s') payload = (evs, r)"
      by (cases "readAll cln (Characteristics s') payload")
    show ?thesis
    proof (cases r)
      case (Inl a)
      with ra readAll_panic_only [of cln "Characteristics s'" payload a] False
      show ?thesis by auto
    next
      case (Inr payload')
      have "s' \<noteq> s"
      proof
        assume "s' = s"
        with readAll_short [OF assms(3-7), of payload] ra Inr show False by simp
      qed
      with Cons.prems have "s \<in> set ss" by simp
      from Cons.IH [OF this, of "AList.update ''timestamp'' (Int64 (now sdiv 1000)) payload'"]
        ra Inr False
      show ?thesis by (auto split: prod.splits)
    qed
  qed
qed

lemma getDeviceData_short:
  assumes "connect d = Inr cln" "DiscoverProfile cln = Inr p"
    and "s \<in> set p" "sUUID s = environmentUUID \<or> sUUID s = batteryServiceUUID"
    and "c \<in> set (Characteristics s)" "length b < 2" "cProperty c AND CharRead \<noteq> 0"
    and "ReadCharacteristic cln c = Inr b"
    and "cUUID c = temperatureUUID \<or> cUUID c = humidityUUID"
  shows "snd (getDeviceData connect now d info) = Inl (GoPanic ''index out of range'')"
proof -
  have "snd (readCharacteristics cln now p) = Inl (GoPanic ''index out of range'')"
    unfolding readCharacteristics_def by (rule readServices_short [OF assms(3-9)])
  with assms(1,2) show ?thesis
    by (auto simp add: getDeviceData_def split: prod.splits)
qed

lemma main_poll_abort:
  "snd (getDeviceData (bleConnect e) (nowMilli e) d info) = Inl a \<Longrightarrow>
     snd (main_poll e knownSensors ((d, info) # rest) payloads) = Inl a"
  by (auto split: prod.splits sum.splits)

lemma readOne_not_decoded:
  assumes "cProperty c AND CharRead \<noteq> 0" "ReadCharacteristic cln c = Inr b"
    and "cUUID c \<noteq> temperatureUUID" "cUUID c \<noteq> humidityUUID"
  shows "readOne cln c payload = ([BleReadCharacteristic (cUUID c)], Inr payload)"
  using assms by (simp add: readOne_def)

text \<open>
  Claim C10 as stated fails in its last part: not every read that returns fewer than two
  bytes ends the poll. A device that offers the battery service with a readable battery
  level, whose read returns the one byte 0x64, is polled to the end: the bytes of this
  read are never handed to \<^verbatim>\<open>parseLittleEndianValue\<close>.
\<close>

theorem short_battery_read_counterexample:
  "getDeviceData
     (\<lambda>d. Inr \<lparr>clnAddr = d,
               DiscoverProfile =
                 Inr [\<lparr>sUUID = batteryServiceUUID,
                       Characteristics = [\<lparr>cUUID = batteryLevelUUID, cProperty = 2\<rparr>]\<rparr>],
               ReadCharacteristic = (\<lambda>c. Inr [0x64])\<rparr>)
     1700000000123 ''a4:c1:38:0c:5b:45''
     \<lparr>sensorName = ''desk'', mqttTopic = ''temperature/room''\<rparr>
   = ([BleConnect ''a4:c1:38:0c:5b:45'', BleDiscoverProfile, BleReadCharacteristic ''2a19'',
       BleCancelConnection, BleAwaitDisconnected],
      Inr ([(''timestamp'', Int64 1700000000), (''address'', String ''a4:c1:38:0c:5b:45''),
            (''sensorname'', String ''desk'')], None))"
  by code_simp

text \<open>
  Claim C10, amended. \<^verbatim>\<open>parseLittleEndianValue\<close> returns \<open>b[0] | b[1]<<8\<close> on every
  slice of at least two bytes and panics on every shorter one. \<^verbatim>\<open>readCharacteristics\<close>
  hands it, unchecked, the bytes of every successful read of a temperature or humidity
  characteristic: when such a read, of a readable characteristic in the environment or
  the battery service, returns fewer than two bytes, \<^verbatim>\<open>getDeviceData\<close> ends in that
  panic and so does the polling loop of \<^verbatim>\<open>main\<close>. The bytes of any other successful
  read are not decoded and leave the payload as it is, whatever their number.
\<close>

theorem parseLittleEndianValue_unchecked_index:
  "(2 \<le> length b \<longrightarrow>
      parseLittleEndianValue b = Inr (ucast (b ! 0) OR push_bit 8 (ucast (b ! 1))))
   \<and> (length b < 2 \<longrightarrow> parseLittleEndianValue b = Inl (GoPanic ''index out of range''))
   \<and> (length b < 2 \<and> bleConnect e d = Inr cln \<and> DiscoverProfile cln = Inr p
        \<and> s \<in> set p \<and> (sUUID s = environmentUUID \<or> sUUID s = batteryServiceUUID)
        \<and> c \<in> set (Characteristics s) \<and> cProperty c AND CharRead \<noteq> 0
        \<and> (cUUID c = temperatureUUID \<or> cUUID c = humidityUUID)
        \<and> ReadCharacteristic cln c = Inr b
      \<longrightarrow> snd (getDeviceData (bleConnect e) (nowMilli e) d info)
            = Inl (GoPanic ''index out of range'')
          \<and> snd (main_poll e knownSensors ((d, info) # rest) payloads)
            = Inl (GoPanic ''index out of range''))
   \<and> (cProperty c AND CharRead \<noteq> 0 \<and> ReadCharacteristic cln c = Inr b
        \<and> cUUID c \<noteq> temperatureUUID \<and> cUUID c \<noteq> humidityUUID
      \<longrightarrow> readOne cln c payload = ([BleReadCharacteristic (cUUID c)], Inr payload))"
proof (intro conjI impI)
  assume "2 \<le> length b"
  then show "parseLittleEndianValue b = Inr (ucast (b ! 0) OR push_bit 8 (ucast (b ! 1)))"
    by (rule parse_long)
next
  assume "length b < 2"
  then show "parseLittleEndianValue b = Inl (GoPanic ''index out of range'')"
    by (rule parse_short)
next
  assume a: "length b < 2 \<and> bleConnect e d = Inr cln \<and> DiscoverProfile cln = Inr p
        \<and> s \<in> set p \<and> (sUUID s = environmentUUID \<or> sUUID s = batteryServiceUUID)
        \<and> c \<in> set (Characteristics s) \<and> cProperty c AND CharRead \<noteq> 0
        \<and> (cUUID c = temperatureUUID \<or> cUUID c = humidityUUID)
        \<and> ReadCharacteristic cln c = Inr b"
  then show g: "snd (getDeviceData (bleConnect e) (nowMilli e) d info)
            = Inl (GoPanic ''index out of range'')"
    by (intro getDeviceData_short [of _ d cln p s c b]) simp_all
  then show "snd (main_poll e knownSensors ((d, info) # rest) payloads)
            = Inl (GoPanic ''index out of range'')"
    by (rule main_poll_abort)
next
  assume "cProperty c AND CharRead \<noteq> 0 \<and> ReadCharacteristic cln c = Inr b
        \<and> cUUID c \<noteq> temperatureUUID \<and> cUUID c \<noteq> humidityUUID"
  then show "readOne cln c payload = ([BleReadCharacteristic (cUUID c)], Inr payload)"
    by (intro readOne_not_decoded [of c cln b]) simp_all
qed

theorem parseLittleEndianValue_unchecked_index_witness:
  "parseLittleEndianValue [0xD7, 0x00] = Inr 215
   \<and> parseLittleEndianValue [0xD7] = Inl (GoPanic ''index out of range'')
   \<and> snd (main_poll
             (exEnv\<lparr>bleConnect :=
                      (\<lambda>d. Inr ((exClient d)\<lparr>ReadCharacteristic := (\<lambda>c. Inr [0xD7])\<rparr>))\<rparr>)
             [] [(''a4:c1:38:0c:5b:45'', \<lparr>sensorName = ''desk'', mqttTopic = ''temperature/room''\<rparr>)] [])
       = Inl (GoPanic ''index out of range'')"
proof -
  let ?cln = "(exClient ''a4:c1:38:0c:5b:45'')\<lparr>ReadCharacteristic := (\<lambda>c. Inr [0xD7])\<rparr>"
  let ?e = "exEnv\<lparr>bleConnect :=
                      (\<lambda>d. Inr ((exClient d)\<lparr>ReadCharacteristic := (\<lambda>c. Inr [0xD7])\<rparr>))\<rparr>"
  let ?c = "\<lparr>cUUID = temperatureUUID, cProperty = 2\<rparr>"
  have h: "length [0xD7 :: byte] < 2 \<and> bleConnect ?e ''a4:c1:38:0c:5b:45'' = Inr ?cln
        \<and> DiscoverProfile ?cln = Inr exProfile
        \<and> hd exProfile \<in> set exProfile
        \<and> (sUUID (hd exProfile) = environmentUUID \<or> sUUID (hd exProfile) = batteryServiceUUID)
        \<and> ?c \<in> set (Characteristics (hd exProfile)) \<and> cProperty ?c AND CharRead \<noteq> 0
        \<and> (cUUID ?c = temperatureUUID \<or> cUUID ?c = humidityUUID)
        \<and> ReadCharacteristic ?cln ?c = Inr [0xD7]"
    by (simp add: exEnv_def exClient_def exProfile_def CharRead_def)
  have two: "2 \<le> length [0xD7, 0x00 :: byte]" by simp
  from parseLittleEndianValue_unchecked_index [where b = "[0xD7, 0x00]"]
       parseLittleEndianValue_unchecked_index
         [where b = "[0xD7]" and e = ?e and d = "''a4:c1:38:0c:5b:45''" and cln = ?cln
            and p = exProfile and s = "hd exProfile" and c = ?c and knownSensors = "[]"
            and info = "\<lparr>sensorName = ''desk'', mqttTopic = ''temperature/room''\<rparr>"
            and rest = "[]" and payloads = "[]"]
       h two
  show ?thesis by simp
qed

subsection \<open>The end of the scan\<close>

lemma errors_Cause_not_wrapper: "errors_Cause err \<noteq> WithMessage m err'"
  by (induction err) simp_all

lemma chkErr_normal:
  "errors_Cause err = DeadlineExceeded \<or> errors_Cause err = Canceled \<Longrightarrow>
     chkErr (Some err) = Inr ()"
  by (auto simp add: chkErr_def)

lemma chkErr_fatal:
  "errors_Cause err \<noteq> DeadlineExceeded \<Longrightarrow> errors_Cause err \<noteq> Canceled \<Longrightarrow>
     chkErr (Some err) = Inl (LogFatal ''err.Error()'')"
  by (cases "errors_Cause err") (simp_all add: chkErr_def)

lemma chkErr_nil: "chkErr None = Inr ()"
  by (simp add: chkErr_def)

lemma main_poll_scanErr:
  "main_poll (e\<lparr>scanErr := x\<rparr>) knownSensors found payloads
     = main_poll e knownSensors found payloads"
  by (induction found arbitrary: payloads) (auto split: prod.splits sum.splits)

lemma main_publish_scanErr: "main_publish (e\<lparr>scanErr := x\<rparr>) payloads = main_publish e payloads"
  by (simp add: main_publish_def split: option.splits)

lemma main_scanErr:
  "chkErr x = chkErr y \<Longrightarrow> main (e\<lparr>scanErr := x\<rparr>) = main (e\<lparr>scanErr := y\<rparr>)"
  by (simp add: main_def main_poll_scanErr main_publish_scanErr Let_def
           split: sum.splits option.splits)

lemma main_scan_fatal:
  assumes "loadKnownSensors (iniLoad e) = Inr knownSensors" "knownSensors \<noteq> []"
    and "newDevice e = None" "chkErr (scanErr e) = Inl a"
  shows "main e = ([BleScan], Inl a)"
  using assms by (simp add: main_def Let_def)

lemma length_rangeOrder: "length (rangeOrder rank m) = length m"
  by (simp add: rangeOrder_def)

lemma getDeviceData_first_event:
  "\<exists>evs. fst (getDeviceData connect now d info) = BleConnect d # evs"
  by (simp add: getDeviceData_def split: sum.splits prod.splits)

lemma main_poll_first_event:
  "\<exists>evs. fst (main_poll e knownSensors ((d, info) # rest) payloads) = BleConnect d # evs"
proof -
  obtain evs0 where g: "fst (getDeviceData (bleConnect e) (nowMilli e) d info) = BleConnect d # evs0"
    using getDeviceData_first_event by blast
  then show ?thesis by (auto split: prod.splits sum.splits)
qed

lemma rangeOrder_Nil_iff: "rangeOrder rank m = [] \<longleftrightarrow> m = []"
  using length_rangeOrder [of rank m] by (metis length_0_conv)

lemma main_after_scan:
  assumes "loadKnownSensors (iniLoad e) = Inr knownSensors" "knownSensors \<noteq> []"
    and "newDevice e = None" "chkErr (scanErr e) = Inr ()"
  shows "bleScan knownSensors (scanAds e) = [] \<Longrightarrow> main e = ([BleScan], Inr ())"
    and "rangeOrder (deviceRank e) (bleScan knownSensors (scanAds e)) = (d, info) # rest \<Longrightarrow>
      main e =
        (case main_poll e knownSensors ((d, info) # rest) [] of
           (evs, Inl a) \<Rightarrow> (BleScan # evs, Inl a)
         | (evs, Inr payloads) \<Rightarrow>
             (case main_publish e payloads of (evs', r) \<Rightarrow> (BleScan # evs @ evs', r)))"
proof -
  assume "bleScan knownSensors (scanAds e) = []"
  with assms show "main e = ([BleScan], Inr ())" by (simp add: main_def Let_def)
next
  assume r: "rangeOrder (deviceRank e) (bleScan knownSensors (scanAds e)) = (d, info) # rest"
  then have "bleScan knownSensors (scanAds e) \<noteq> []"
    using rangeOrder_Nil_iff [of "deviceRank e" "bleScan knownSensors (scanAds e)"] by auto
  with assms r show "main e =
        (case main_poll e knownSensors ((d, info) # rest) [] of
           (evs, Inl a) \<Rightarrow> (BleScan # evs, Inl a)
         | (evs, Inr payloads) \<Rightarrow>
             (case main_publish e payloads of (evs', r) \<Rightarrow> (BleScan # evs @ evs', r)))"
    by (simp add: main_def Let_def)
qed

lemma main_polls_first_device:
  assumes "loadKnownSensors (iniLoad e) = Inr knownSensors" "knownSensors \<noteq> []"
    and "newDevice e = None" "chkErr (scanErr e) = Inr ()"
    and "rangeOrder (deviceRank e) (bleScan knownSensors (scanAds e)) = (d, info) # rest"
  shows "\<exists>evs. fst (main e) = BleScan # BleConnect d # evs"
proof -
  obtain evs0 where
    p: "fst (main_poll e knownSensors ((d, info) # rest) []) = BleConnect d # evs0"
    using main_poll_first_event by blast
  obtain evs1 r1 where m: "main_poll e knownSensors ((d, info) # rest) [] = (evs1, r1)"
    by (cases "main_poll e knownSensors ((d, info) # rest) []")
  with p have e1: "evs1 = BleConnect d # evs0" by simp
  show ?thesis
    unfolding main_after_scan(2) [OF assms] m e1
    by (cases r1) (auto split: prod.splits)
qed

text \<open>
  Claim C6. When the error the scan ends with has the cause \<^verbatim>\<open>context.DeadlineExceeded\<close>
  or \<^verbatim>\<open>context.Canceled\<close>, \<^verbatim>\<open>chkErr\<close> returns and the run goes on, exactly as
  after a scan that ended without an error: with no device found \<^verbatim>\<open>main\<close> returns,
  and otherwise it polls the found devices in the order of the range, starting with a
  connection to the first one, and then publishes. With any other cause \<^verbatim>\<open>chkErr\<close>
  ends the process by \<^verbatim>\<open>log.Fatalf\<close>: the run stops after the scan, no device is
  polled and nothing is published.
\<close>

theorem scan_termination_cause:
  "(errors_Cause err = DeadlineExceeded \<or> errors_Cause err = Canceled \<longrightarrow>
      chkErr (Some err) = Inr ()
      \<and> main (e\<lparr>scanErr := Some err\<rparr>) = main (e\<lparr>scanErr := None\<rparr>)
      \<and> (loadKnownSensors (iniLoad e) = Inr knownSensors \<and> knownSensors \<noteq> []
           \<and> newDevice e = None \<longrightarrow>
          (bleScan knownSensors (scanAds e) = [] \<longrightarrow>
             main (e\<lparr>scanErr := Some err\<rparr>) = ([BleScan], Inr ()))
          \<and> (rangeOrder (deviceRank e) (bleScan knownSensors (scanAds e)) = (d, info) # rest
               \<longrightarrow>
              main (e\<lparr>scanErr := Some err\<rparr>) =
                (case main_poll e knownSensors ((d, info) # rest) [] of
                   (evs, Inl a) \<Rightarrow> (BleScan # evs, Inl a)
                 | (evs, Inr payloads) \<Rightarrow>
                     (case main_publish e payloads of
                        (evs', r) \<Rightarrow> (BleScan # evs @ evs', r)))
              \<and> (\<exists>evs. fst (main (e\<lparr>scanErr := Some err\<rparr>))
                          = BleScan # BleConnect d # evs))))
   \<and> (errors_Cause err \<noteq> DeadlineExceeded \<and> errors_Cause err \<noteq> Canceled \<longrightarrow>
        chkErr (Some err) = Inl (LogFatal ''err.Error()'')
        \<and> (loadKnownSensors (iniLoad e) = Inr knownSensors \<and> knownSensors \<noteq> []
             \<and> newDevice e = None \<longrightarrow>
            main (e\<lparr>scanErr := Some err\<rparr>) = ([BleScan], Inl (LogFatal ''err.Error()''))))"
proof (intro conjI impI)
  assume n: "errors_Cause err = DeadlineExceeded \<or> errors_Cause err = Canceled"
  then show c: "chkErr (Some err) = Inr ()" by (rule chkErr_normal)
  then have "chkErr (Some err) = chkErr None" by (simp add: chkErr_nil)
  then show "main (e\<lparr>scanErr := Some err\<rparr>) = main (e\<lparr>scanErr := None\<rparr>)"
    by (rule main_scanErr)
  assume l: "loadKnownSensors (iniLoad e) = Inr knownSensors \<and> knownSensors \<noteq> []
           \<and> newDevice e = None"
  let ?e = "e\<lparr>scanErr := Some err\<rparr>"
  from l c have a: "loadKnownSensors (iniLoad ?e) = Inr knownSensors" "knownSensors \<noteq> []"
    "newDevice ?e = None" "chkErr (scanErr ?e) = Inr ()"
    by simp_all
  {
    assume "bleScan knownSensors (scanAds e) = []"
    then have "bleScan knownSensors (scanAds ?e) = []" by simp
    then show "main ?e = ([BleScan], Inr ())" by (rule main_after_scan(1) [OF a])
  }
  assume "rangeOrder (deviceRank e) (bleScan knownSensors (scanAds e)) = (d, info) # rest"
  then have r: "rangeOrder (deviceRank ?e) (bleScan knownSensors (scanAds ?e)) = (d, info) # rest"
    by simp
  from main_after_scan(2) [OF a r]
  show "main ?e =
                (case main_poll e knownSensors ((d, info) # rest) [] of
                   (evs, Inl a) \<Rightarrow> (BleScan # evs, Inl a)
                 | (evs, Inr payloads) \<Rightarrow>
                     (case main_publish e payloads of
                        (evs', r) \<Rightarrow> (BleScan # evs @ evs', r)))"
    by (simp only: main_poll_scanErr main_publish_scanErr)
  from main_polls_first_device [OF a r]
  show "\<exists>evs. fst (main ?e) = BleScan # BleConnect d # evs" .
next
  assume f: "errors_Cause err \<noteq> DeadlineExceeded \<and> errors_Cause err \<noteq> Canceled"
  then show c: "chkErr (Some err) = Inl (LogFatal ''err.Error()'')"
    by (simp add: chkErr_fatal)
  assume "loadKnownSensors (iniLoad e) = Inr knownSensors \<and> knownSensors \<noteq> []
             \<and> newDevice e = None"
  with c show "main (e\<lparr>scanErr := Some err\<rparr>) = ([BleScan], Inl (LogFatal ''err.Error()''))"
    by (intro main_scan_fatal [of _ knownSensors]) simp_all
qed

lemma exRegistry: "loadKnownSensors (Inr exSettings) = Inr exKnown"
  by code_simp

lemma exRangeOrder:
  "rangeOrder (deviceRank exEnv) (bleScan exKnown (scanAds exEnv))
     = (''a4:c1:38:0c:5b:45'', \<lparr>sensorName = ''desk'', mqttTopic = ''temperature/room''\<rparr>)
       # [(''a4:c1:38:0c:5b:46'', \<lparr>sensorName = ''shelf'', mqttTopic = ''temperature/room''\<rparr>)]"
  by code_simp

theorem scan_termination_cause_witness:
  "errors_Cause (WithMessage ''scan'' Canceled) = Canceled
   \<and> main (exEnv\<lparr>scanErr := Some (WithMessage ''scan'' Canceled)\<rparr>)
       = main (exEnv\<lparr>scanErr := None\<rparr>)
   \<and> (\<exists>evs. fst (main (exEnv\<lparr>scanErr := Some (WithMessage ''scan'' Canceled)\<rparr>))
              = BleScan # BleConnect ''a4:c1:38:0c:5b:45'' # evs)
   \<and> main (exEnv\<lparr>scanErr := Some (OtherError ''can't set advertising handler'')\<rparr>)
       = ([BleScan], Inl (LogFatal ''err.Error()''))"
proof -
  have l: "loadKnownSensors (iniLoad exEnv) = Inr exKnown"
    using exRegistry by (simp add: exEnv_def)
  have k: "exKnown \<noteq> []" by (simp add: exKnown_def)
  have n: "newDevice exEnv = None" by (simp add: exEnv_def)
  have c: "errors_Cause (WithMessage ''scan'' Canceled) = DeadlineExceeded
             \<or> errors_Cause (WithMessage ''scan'' Canceled) = Canceled"
    by simp
  have f: "errors_Cause (OtherError ''can't set advertising handler'') \<noteq> DeadlineExceeded
             \<and> errors_Cause (OtherError ''can't set advertising handler'') \<noteq> Canceled"
    by simp
  have lkn: "loadKnownSensors (iniLoad exEnv) = Inr exKnown \<and> exKnown \<noteq> []
               \<and> newDevice exEnv = None"
    using l k n by simp
  note normal = scan_termination_cause
         [where err = "WithMessage ''scan'' Canceled" and e = exEnv and knownSensors = exKnown,
          THEN conjunct1, rule_format, OF c]
  note fatal = scan_termination_cause
         [where err = "OtherError ''can't set advertising handler''" and e = exEnv
            and knownSensors = exKnown,
          THEN conjunct2, rule_format, OF f]
  have 1: "main (exEnv\<lparr>scanErr := Some (WithMessage ''scan'' Canceled)\<rparr>)
             = main (exEnv\<lparr>scanErr := None\<rparr>)"
    using normal by blast
  have 2: "\<exists>evs. fst (main (exEnv\<lparr>scanErr := Some (WithMessage ''scan'' Canceled)\<rparr>))
              = BleScan # BleConnect ''a4:c1:38:0c:5b:45'' # evs"
    using normal [THEN conjunct2, THEN conjunct2, rule_format, OF lkn,
                  THEN conjunct2, rule_format, OF exRangeOrder]
    by blast
  have 3: "main (exEnv\<lparr>scanErr := Some (OtherError ''can't set advertising handler'')\<rparr>)
             = ([BleScan], Inl (LogFatal ''err.Error()''))"
    using fatal [THEN conjunct2, rule_format, OF lkn] .
  from 1 2 3 show ?thesis by simp
qed

subsection \<open>The publisher\<close>

text \<open>
  Claim C7. With an empty collection of payloads the publishing block of \<^verbatim>\<open>main\<close>
  does nothing: no connection to the broker and no publish call. It connects exactly when
  the collection is not empty, and it publishes only then.
\<close>

theorem publish_empty_collection:
  "main_publish e [] = ([], Inr ())
   \<and> (MqttConnect \<in> set (fst (main_publish e payloads)) \<longleftrightarrow> payloads \<noteq> [])
   \<and> ((\<exists>ev \<in> set (fst (main_publish e payloads)). isPublish ev) \<longrightarrow> payloads \<noteq> [])"
  by (auto simp add: main_publish_def split: option.splits)

theorem publish_empty_collection_witness:
  "fst (main_publish exEnv []) = [] \<and> MqttConnect \<notin> set (fst (main_publish exEnv []))"
  using publish_empty_collection [of exEnv "[]"] by simp

subsection \<open>The matched devices\<close>

lemma scanCallback_matchKey:
  "scanCallback knownSensors a found =
     (case matchKey knownSensors a of
        None \<Rightarrow> found
      | Some k \<Rightarrow> AList.update k (the (map_of knownSensors k)) found)"
  by (auto simp add: scanCallback_def matchKey_def Let_def split: option.splits)

lemma map_of_scanCallback:
  "map_of (scanCallback knownSensors a found) k =
     (if matchKey knownSensors a = Some k then map_of knownSensors k else map_of found k)"
  by (auto simp add: scanCallback_def matchKey_def Let_def update_conv' split: option.splits)

lemma distinct_scanCallback:
  "distinct (map fst found) \<Longrightarrow> distinct (map fst (scanCallback knownSensors a found))"
  by (simp add: scanCallback_matchKey distinct_update split: option.splits)

lemma map_of_scan_fold:
  "map_of (fold (scanCallback knownSensors) ads found) k =
     (if Some k \<in> matchKey knownSensors ` set ads then map_of knownSensors k
      else map_of found k)"
proof (induction ads arbitrary: found)
  case Nil
  then show ?case by simp
next
  case (Cons a ads)
  show ?case
    by (simp add: Cons.IH map_of_scanCallback)
qed

lemma distinct_scan_fold:
  "distinct (map fst found) \<Longrightarrow>
     distinct (map fst (fold (scanCallback knownSensors) ads found))"
  by (induction ads arbitrary: found) (simp_all add: distinct_scanCallback)

lemma map_of_bleScan:
  "map_of (bleScan knownSensors ads) k =
     (if Some k \<in> matchKey knownSensors ` set ads then map_of knownSensors k else None)"
  by (simp add: bleScan_def map_of_scan_fold)

lemma distinct_bleScan: "distinct (map fst (bleScan knownSensors ads))"
  by (simp add: bleScan_def distinct_scan_fold)

lemma set_bleScan:
  "set (bleScan knownSensors ads) =
     {(k, info). Some k \<in> matchKey knownSensors ` set ads \<and> map_of knownSensors k = Some info}"
proof -
  have "(k, info) \<in> set (bleScan knownSensors ads) \<longleftrightarrow>
          map_of (bleScan knownSensors ads) k = Some info" for k info
    using distinct_bleScan [of knownSensors ads] by simp
  then show ?thesis by (auto simp add: map_of_bleScan split: if_splits)
qed

text \<open>
  Claim C8. For every registry, two sequences of advertisements that are permutations of
  each other leave the same found devices: the same set of keys with the same sensor info
  (and so equally many).
\<close>

theorem scan_order_independent:
  assumes "mset ads = mset ads'"
  shows "set (bleScan knownSensors ads) = set (bleScan knownSensors ads')
         \<and> map_of (bleScan knownSensors ads) = map_of (bleScan knownSensors ads')
         \<and> length (bleScan knownSensors ads) = length (bleScan knownSensors ads')"
proof -
  from assms have s: "set ads = set ads'" by (rule mset_eq_setD)
  then have 1: "set (bleScan knownSensors ads) = set (bleScan knownSensors ads')"
    by (simp add: set_bleScan)
  have 2: "map_of (bleScan knownSensors ads) = map_of (bleScan knownSensors ads')"
    by (rule ext) (simp add: map_of_bleScan s)
  have "distinct (bleScan knownSensors ads)" "distinct (bleScan knownSensors ads')"
    using distinct_bleScan distinct_map by blast+
  then have "card (set (bleScan knownSensors ads)) = length (bleScan knownSensors ads)"
    "card (set (bleScan knownSensors ads')) = length (bleScan knownSensors ads')"
    by (simp_all add: distinct_card)
  with 1 have 3: "length (bleScan knownSensors ads) = length (bleScan knownSensors ads')"
    by simp
  from 1 2 3 show ?thesis by blast
qed

lemma exScan: "bleScan exKnown exAds = exKnown"
  by code_simp

theorem scan_order_independent_witness:
  "mset exAds = mset (rev exAds) \<and> set (bleScan exKnown (rev exAds)) = set exKnown"
proof -
  have m: "mset exAds = mset (rev exAds)" by simp
  from scan_order_independent [OF m, of exKnown] exScan m show ?thesis by simp
qed

subsection \<open>The keys of the registry\<close>

lemma lowerChar_not_upper: "\<not> upperChar (lowerChar c)"
  by (auto simp add: lowerChar_def upperChar_def split: option.splits if_splits)

lemma toLower_not_upper: "c \<in> set (toLower s) \<Longrightarrow> \<not> upperChar c"
  by (auto simp add: toLower_def lowerChar_not_upper)

lemma atcPrefix_A: "atcPrefix s \<Longrightarrow> CHR ''A'' \<in> set s"
  by (erule atcPrefix.elims) simp_all

lemma matchAnywhere_atc_A: "matchAnywhere atcPrefix s \<Longrightarrow> CHR ''A'' \<in> set s"
  by (induction s) (auto dest: atcPrefix_A)

lemma atcMatcher_not_lower: "atcMatcher n \<Longrightarrow> n \<noteq> toLower s"
proof
  assume "atcMatcher n" "n = toLower s"
  then have "CHR ''A'' \<in> set (toLower s)"
    using matchAnywhere_atc_A [of n] by (simp add: atcMatcher_def)
  then have "\<not> upperChar (CHR ''A'')" by (rule toLower_not_upper)
  then show False by (simp add: upperChar_def)
qed

lemma loadSections_keys:
  "loadSections secs knownSensors = Inr knownSensors' \<Longrightarrow>
     fst ` set knownSensors' \<subseteq> fst ` set knownSensors \<union> range toLower"
proof (induction secs arbitrary: knownSensors)
  case Nil
  then show ?case by auto
next
  case (Cons sec secs)
  show ?case
  proof (cases "\<not> addressMatcher (toLower (secName sec)) \<and> \<not> atcMatcher (secName sec)")
    case True
    with Cons.prems have "loadSections secs knownSensors = Inr knownSensors'" by simp
    then show ?thesis by (rule Cons.IH)
  next
    case False
    with Cons.prems obtain sensorname topic where
      l: "loadSections secs
            (AList.update (toLower (secName sec))
               \<lparr>sensorName = toLower sensorname, mqttTopic = topic\<rparr> knownSensors)
          = Inr knownSensors'"
      by (auto simp add: Let_def split: option.splits)
    from Cons.IH [OF l] show ?thesis by (auto simp add: dom_update)
  qed
qed

lemma loadKnownSensors_keys:
  "loadKnownSensors iniFile = Inr knownSensors \<Longrightarrow> fst ` set knownSensors \<subseteq> range toLower"
  using loadSections_keys [of _ "[]" knownSensors]
  by (auto simp add: loadKnownSensors_def split: sum.splits)

text \<open>
  Claim C9. For every registry that \<^verbatim>\<open>loadKnownSensors\<close> returns and every advertisement
  whose local name matches \<^verbatim>\<open>ATC_[0-9A-Z]+\<close>, the local name is not a key of the
  registry (the keys are lower-cased, the name holds an upper-case letter), so the handler
  of the scan never records the advertisement under its name: it records it under its
  lower-cased address or not at all.
\<close>

theorem atc_name_never_matches:
  assumes "loadKnownSensors iniFile = Inr knownSensors"
    and "atcMatcher (adLocalName a)"
  shows "map_of knownSensors (adLocalName a) = None
         \<and> matchKey knownSensors a \<noteq> Some (adLocalName a)
         \<and> scanCallback knownSensors a foundDevices =
             (case map_of knownSensors (toLower (adAddr a)) of
                Some info \<Rightarrow> AList.update (toLower (adAddr a)) info foundDevices
              | None \<Rightarrow> foundDevices)"
proof -
  have "adLocalName a \<notin> range toLower"
    using atcMatcher_not_lower [OF assms(2)] by auto
  with loadKnownSensors_keys [OF assms(1)] have "adLocalName a \<notin> fst ` set knownSensors"
    by auto
  then have n: "map_of knownSensors (adLocalName a) = None"
    by (simp add: map_of_eq_None_iff)
  then have k: "matchKey knownSensors a \<noteq> Some (adLocalName a)"
    by (auto simp add: matchKey_def)
  from n have "scanCallback knownSensors a foundDevices =
             (case map_of knownSensors (toLower (adAddr a)) of
                Some info \<Rightarrow> AList.update (toLower (adAddr a)) info foundDevices
              | None \<Rightarrow> foundDevices)"
    by (simp add: scanCallback_def Let_def split: option.splits)
  with n k show ?thesis by blast
qed

lemma exAtcRegistry:
  "loadKnownSensors
     (Inr [\<lparr>secName = ''ATC_0C5B45'',
            GetKey = [''sensorname'' \<mapsto> ''Desk'', ''topic'' \<mapsto> ''temperature/room'']\<rparr>])
   = Inr [(''atc_0c5b45'', \<lparr>sensorName = ''desk'', mqttTopic = ''temperature/room''\<rparr>)]"
  by code_simp

lemma exAtcName: "atcMatcher ''ATC_0C5B45''"
  by code_simp

theorem atc_name_never_matches_witness:
  "atcMatcher (adLocalName \<lparr>adAddr = ''A4:C1:38:0C:5B:45'', adLocalName = ''ATC_0C5B45''\<rparr>)
   \<and> scanCallback
        [(''atc_0c5b45'', \<lparr>sensorName = ''desk'', mqttTopic = ''temperature/room''\<rparr>)]
        \<lparr>adAddr = ''A4:C1:38:0C:5B:45'', adLocalName = ''ATC_0C5B45''\<rparr> []
      = []"
proof -
  let ?a = "\<lparr>adAddr = ''A4:C1:38:0C:5B:45'', adLocalName = ''ATC_0C5B45''\<rparr>"
  have m: "atcMatcher (adLocalName ?a)" using exAtcName by simp
  have "map_of [(''atc_0c5b45'', \<lparr>sensorName = ''desk'', mqttTopic = ''temperature/room''\<rparr>)]
          (toLower (adAddr ?a)) = None"
    by code_simp
  with atc_name_never_matches [OF exAtcRegistry m, of "[]"] m show ?thesis by simp
qed

subsection \<open>The session of one device\<close>

lemma readOne_events: "readOne cln c payload = (evs, r) \<Longrightarrow> list_all isRead evs"
  by (auto simp add: readOne_def split: sum.splits if_splits)

lemma readAll_events: "readAll cln cs payload = (evs, r) \<Longrightarrow> list_all isRead evs"
proof (induction cs arbitrary: payload evs r)
  case Nil
  then show ?case by simp
next
  case (Cons c cs)
  then show ?case
    by (auto split: prod.splits sum.splits dest: readOne_events)
qed

lemma readServices_events:
  "readServices cln now p payload = (evs, r) \<Longrightarrow> list_all isRead evs"
proof (induction p arbitrary: payload evs r)
  case Nil
  then show ?case by simp
next
  case (Cons s ss)
  then show ?case
    by (auto split: prod.splits sum.splits if_splits dest: readAll_events)
qed

lemma getDeviceData_returns:
  assumes "getDeviceData connect now d info = (evs, Inr r)"
  shows "\<exists>cln p reads payload.
           connect d = Inr cln \<and> DiscoverProfile cln = Inr p
           \<and> readCharacteristics cln now p = (reads, Inr payload)
           \<and> evs = BleConnect d # BleDiscoverProfile # reads
                     @ [BleCancelConnection, BleAwaitDisconnected]
           \<and> r = (AList.update ''sensorname'' (String (sensorName info))
                     (AList.update ''address'' (String (clnAddr cln)) payload), None)"
  using assms
  by (auto simp add: getDeviceData_def split: sum.splits prod.splits)

lemma readOne_total:
  assumes "\<And>b. ReadCharacteristic cln c = Inr b \<Longrightarrow>
             cUUID c = temperatureUUID \<or> cUUID c = humidityUUID \<Longrightarrow> 2 \<le> length b"
  shows "\<exists>payload'. snd (readOne cln c payload) = Inr payload'"
proof (cases "ReadCharacteristic cln c")
  case (Inl err)
  then show ?thesis by (simp add: readOne_def)
next
  case (Inr b)
  show ?thesis
  proof (cases "cUUID c = temperatureUUID \<or> cUUID c = humidityUUID")
    case True
    with assms Inr have "2 \<le> length b" by simp
    then have "parseLittleEndianValue b = Inr (ucast (b ! 0) OR push_bit 8 (ucast (b ! 1)))"
      by (rule parse_long)
    with Inr show ?thesis by (simp add: readOne_def)
  next
    case False
    with Inr show ?thesis by (simp add: readOne_def)
  qed
qed

lemma readAll_total:
  assumes "\<And>c b. ReadCharacteristic cln c = Inr b \<Longrightarrow>
             cUUID c = temperatureUUID \<or> cUUID c = humidityUUID \<Longrightarrow> 2 \<le> length b"
  shows "\<exists>payload'. snd (readAll cln cs payload) = Inr payload'"
proof (induction cs arbitrary: payload)
  case Nil
  then show ?case by simp
next
  case (Cons c cs)
  from readOne_total [of cln c payload] assms
  obtain payload1 where 1: "snd (readOne cln c payload) = Inr payload1" by blast
  from Cons.IH [of payload1]
  obtain payload2 where 2: "snd (readAll cln cs payload1) = Inr payload2" by blast
  from 1 2 show ?case by (auto split: prod.splits sum.splits)
qed

lemma readServices_total:
  assumes "\<And>c b. ReadCharacteristic cln c = Inr b \<Longrightarrow>
             cUUID c = temperatureUUID \<or> cUUID c = humidityUUID \<Longrightarrow> 2 \<le> length b"
  shows "\<exists>payload'. snd (readServices cln now p payload) = Inr payload'"
proof (induction p arbitrary: payload)
  case Nil
  then show ?case by simp
next
  case (Cons s ss)
  from readAll_total [of cln "Characteristics s" payload] assms
  obtain payload1 where 1: "snd (readAll cln (Characteristics s) payload) = Inr payload1"
    by blast
  from Cons.IH [of "AList.update ''timestamp'' (Int64 (now sdiv 1000)) payload1"]
  obtain payload2 where
    2: "snd (readServices cln now ss
               (AList.update ''timestamp'' (Int64 (now sdiv 1000)) payload1)) = Inr payload2"
    by blast
  from Cons.IH [of payload]
  obtain payload3 where 3: "snd (readServices cln now ss payload) = Inr payload3" by blast
  from 1 2 3 show ?case by (auto split: prod.splits sum.splits)
qed

lemma getDeviceData_total:
  assumes "connect d = Inr cln" "DiscoverProfile cln = Inr p"
    and "\<And>c b. ReadCharacteristic cln c = Inr b \<Longrightarrow>
             cUUID c = temperatureUUID \<or> cUUID c = humidityUUID \<Longrightarrow> 2 \<le> length b"
  shows "\<exists>reads r. getDeviceData connect now d info
           = (BleConnect d # BleDiscoverProfile # reads
                @ [BleCancelConnection, BleAwaitDisconnected], Inr r)"
proof -
  from readServices_total [of cln now p "[]"] assms(3)
  obtain payload where "snd (readCharacteristics cln now p) = Inr payload"
    unfolding readCharacteristics_def by blast
  with assms(1,2) show ?thesis
    by (auto simp add: getDeviceData_def split: prod.splits)
qed

text \<open>
  Every return of \<^verbatim>\<open>getDeviceData\<close> comes after the disconnect and the wait for its
  completion, and the function does return when the device connects, its discovery
  succeeds and no successful read of a temperature or humidity characteristic is shorter
  than two bytes, read errors or not.
\<close>

lemma session_closed_before_return:
  "(getDeviceData connect now d info = (evs, Inr r) \<longrightarrow>
      (\<exists>reads. evs = BleConnect d # BleDiscoverProfile # reads
                       @ [BleCancelConnection, BleAwaitDisconnected]
               \<and> list_all isRead reads))
   \<and> (connect d = Inr cln \<and> DiscoverProfile cln = Inr p
        \<and> (\<forall>c b. ReadCharacteristic cln c = Inr b
                   \<and> (cUUID c = temperatureUUID \<or> cUUID c = humidityUUID)
                 \<longrightarrow> 2 \<le> length b)
      \<longrightarrow> (\<exists>reads r'. getDeviceData connect now d info
              = (BleConnect d # BleDiscoverProfile # reads
                   @ [BleCancelConnection, BleAwaitDisconnected], Inr r')))"
proof (intro conjI impI)
  assume "getDeviceData connect now d info = (evs, Inr r)"
  from getDeviceData_returns [OF this]
  obtain cln p reads payload where
    r: "readCharacteristics cln now p = (reads, Inr payload)"
    and e: "evs = BleConnect d # BleDiscoverProfile # reads
                    @ [BleCancelConnection, BleAwaitDisconnected]"
    by blast
  from r have "list_all isRead reads"
    unfolding readCharacteristics_def by (rule readServices_events)
  with e show "\<exists>reads. evs = BleConnect d # BleDiscoverProfile # reads
                       @ [BleCancelConnection, BleAwaitDisconnected]
               \<and> list_all isRead reads"
    by blast
next
  assume "connect d = Inr cln \<and> DiscoverProfile cln = Inr p
        \<and> (\<forall>c b. ReadCharacteristic cln c = Inr b
                   \<and> (cUUID c = temperatureUUID \<or> cUUID c = humidityUUID)
                 \<longrightarrow> 2 \<le> length b)"
  then show "\<exists>reads r'. getDeviceData connect now d info
              = (BleConnect d # BleDiscoverProfile # reads
                   @ [BleCancelConnection, BleAwaitDisconnected], Inr r')"
    by (intro getDeviceData_total [of connect d cln p]) auto
qed

text \<open>
  Claim C5 says that every session that was opened is torn down, the disconnect issued
  and awaited, before \<^verbatim>\<open>getDeviceData\<close> hands control back. The code does so only on
  the path that reaches line 264. With the session open, a failing discovery ends the
  process by \<^verbatim>\<open>log.Fatalf\<close> (line 253), and a temperature read of one byte ends it by
  the panic of line 271: in both runs neither \<^verbatim>\<open>CancelConnection\<close> nor the wait for
  the disconnection happens.
\<close>

theorem session_left_open_on_failure:
  "getDeviceData
     (\<lambda>d. Inr ((exClient d)\<lparr>DiscoverProfile := Inl (OtherError ''disconnected'')\<rparr>))
     1700000000123 ''a4:c1:38:0c:5b:45''
     \<lparr>sensorName = ''desk'', mqttTopic = ''temperature/room''\<rparr>
   = ([BleConnect ''a4:c1:38:0c:5b:45'', BleDiscoverProfile],
      Inl (LogFatal ''can't discover profile: %s''))
   \<and> getDeviceData
     (\<lambda>d. Inr ((exClient d)\<lparr>ReadCharacteristic := (\<lambda>c. Inr [0xD7])\<rparr>))
     1700000000123 ''a4:c1:38:0c:5b:45''
     \<lparr>sensorName = ''desk'', mqttTopic = ''temperature/room''\<rparr>
   = ([BleConnect ''a4:c1:38:0c:5b:45'', BleDiscoverProfile, BleReadCharacteristic ''2a1f''],
      Inl (GoPanic ''index out of range''))
   \<and> BleCancelConnection \<notin> set (fst (getDeviceData
         (\<lambda>d. Inr ((exClient d)\<lparr>DiscoverProfile := Inl (OtherError ''disconnected'')\<rparr>))
         1700000000123 ''a4:c1:38:0c:5b:45''
         \<lparr>sensorName = ''desk'', mqttTopic = ''temperature/room''\<rparr>))
   \<and> BleCancelConnection \<notin> set (fst (getDeviceData
         (\<lambda>d. Inr ((exClient d)\<lparr>ReadCharacteristic := (\<lambda>c. Inr [0xD7])\<rparr>))
         1700000000123 ''a4:c1:38:0c:5b:45''
         \<lparr>sensorName = ''desk'', mqttTopic = ''temperature/room''\<rparr>))"
  by code_simp

subsection \<open>The polling loop and the publish collection\<close>

lemma main_poll_Cons_returns:
  assumes "getDeviceData (bleConnect e) (nowMilli e) d info = (evs, Inr (payload, err))"
  shows "err = None"
  using assms by (auto simp add: getDeviceData_def split: sum.splits prod.splits)

lemma main_poll_single:
  assumes "getDeviceData (bleConnect e) (nowMilli e) d info = (evs, Inr (payload, err))"
  shows "main_poll e knownSensors [(d, info)] payloads
           = (evs, Inr (AList.update (topicOf knownSensors d) payload payloads))"
  using assms main_poll_Cons_returns [OF assms] by simp

lemma main_poll_keys:
  "main_poll e knownSensors found payloads = (evs, Inr payloads') \<Longrightarrow>
     fst ` set payloads' = fst ` set payloads \<union> topicOf knownSensors ` fst ` set found"
proof (induction found arbitrary: payloads evs)
  case Nil
  then show ?case by simp
next
  case (Cons x found)
  obtain d info where x: "x = (d, info)" by (cases x)
  from Cons.prems obtain evs1 payload err evs2 where
    g: "getDeviceData (bleConnect e) (nowMilli e) d info = (evs1, Inr (payload, err))"
    and r: "main_poll e knownSensors found
              (if err = None then AList.update (topicOf knownSensors d) payload payloads
               else payloads) = (evs2, Inr payloads')"
    unfolding x by (auto split: prod.splits sum.splits)
  from main_poll_Cons_returns [OF g] r
  have "main_poll e knownSensors found
          (AList.update (topicOf knownSensors d) payload payloads) = (evs2, Inr payloads')"
    by simp
  from Cons.IH [OF this] show ?case unfolding x by (auto simp add: dom_update)
qed

lemma main_poll_distinct:
  "main_poll e knownSensors found payloads = (evs, Inr payloads') \<Longrightarrow>
     distinct (map fst payloads) \<Longrightarrow> distinct (map fst payloads')"
proof (induction found arbitrary: payloads evs)
  case Nil
  then show ?case by simp
next
  case (Cons x found)
  obtain d info where x: "x = (d, info)" by (cases x)
  from Cons.prems(1) obtain evs1 payload err evs2 where
    g: "getDeviceData (bleConnect e) (nowMilli e) d info = (evs1, Inr (payload, err))"
    and r: "main_poll e knownSensors found
              (if err = None then AList.update (topicOf knownSensors d) payload payloads
               else payloads) = (evs2, Inr payloads')"
    unfolding x by (auto split: prod.splits sum.splits)
  have "distinct (map fst (if err = None
          then AList.update (topicOf knownSensors d) payload payloads else payloads))"
    using Cons.prems(2) by (simp add: distinct_update)
  with Cons.IH [OF r] show ?case .
qed

lemma main_poll_member:
  assumes "main_poll e knownSensors found payloads = (evs, Inr payloads')"
    and "(d, info) \<in> set found"
  shows "topicOf knownSensors d \<in> fst ` set payloads'"
proof -
  from assms(2) have "d \<in> fst ` set found" by (rule image_eqI [rotated]) simp
  then have "topicOf knownSensors d \<in> topicOf knownSensors ` fst ` set found"
    by (rule imageI)
  then show ?thesis unfolding main_poll_keys [OF assms(1)] by simp
qed

lemma filter_isPublish_map:
  "filter isPublish (map (\<lambda>(topic, payload). MqttPublish topic payload) xs)
     = map (\<lambda>(topic, payload). MqttPublish topic payload) xs"
  by (induction xs) (simp_all split: prod.splits)

lemma publish_events:
  assumes "mqttConnectErr e = None"
  shows "filter isPublish (fst (main_publish e payloads))
       = map (\<lambda>(topic, payload). MqttPublish topic payload) (rangeOrder (topicRank e) payloads)"
proof (cases "payloads = []")
  case True
  then show ?thesis by (simp add: main_publish_def rangeOrder_def)
next
  case False
  with assms show ?thesis by (simp add: main_publish_def filter_isPublish_map)
qed

lemma mset_rangeOrder: "mset (rangeOrder rank m) = mset m"
  by (simp add: rangeOrder_def)

lemma getDeviceData_connect_fails:
  "connect d = Inl err \<Longrightarrow>
     getDeviceData connect now d info
       = ([BleConnect d], Inl (LogFatal ''failed to connect to %s: %s''))"
  by (simp add: getDeviceData_def)

lemma getDeviceData_discover_fails:
  "connect d = Inr cln \<Longrightarrow> DiscoverProfile cln = Inl err \<Longrightarrow>
     getDeviceData connect now d info
       = ([BleConnect d, BleDiscoverProfile], Inl (LogFatal ''can't discover profile: %s''))"
  by (simp add: getDeviceData_def)

lemma main_poll_stops:
  "getDeviceData (bleConnect e) (nowMilli e) d info = (evs, Inl a) \<Longrightarrow>
     main_poll e knownSensors ((d, info) # rest) payloads = (evs, Inl a)"
  by simp

text \<open>
  Claim C1 says that a device whose session cannot be opened, or whose services cannot be
  discovered, is skipped and the next matched device is polled. The code ends the process
  there instead: with the two example sensors found, a failing connection to the first
  one, or a failing discovery on it, stops the run by \<^verbatim>\<open>log.Fatalf\<close>; the second
  sensor is never polled and nothing is published.
\<close>

theorem connect_failure_ends_process:
  "main (exEnv\<lparr>bleConnect :=
           (\<lambda>d. if d = ''a4:c1:38:0c:5b:45''
                then Inl (WithMessage ''can't connect'' DeadlineExceeded)
                else Inr (exClient d))\<rparr>)
     = ([BleScan, BleConnect ''a4:c1:38:0c:5b:45''],
        Inl (LogFatal ''failed to connect to %s: %s''))
   \<and> main (exEnv\<lparr>bleConnect :=
           (\<lambda>d. if d = ''a4:c1:38:0c:5b:45''
                then Inr ((exClient d)\<lparr>DiscoverProfile := Inl (OtherError ''disconnected'')\<rparr>)
                else Inr (exClient d))\<rparr>)
     = ([BleScan, BleConnect ''a4:c1:38:0c:5b:45'', BleDiscoverProfile],
        Inl (LogFatal ''can't discover profile: %s''))"
  by code_simp

text \<open>
  The polling loop stores every payload that \<^verbatim>\<open>getDeviceData\<close> returns under the
  topic of the device, and when the loop completes the collection holds a message under
  the topic of every found device.
\<close>

lemma returned_payload_always_collected:
  "(getDeviceData (bleConnect e) (nowMilli e) d info = (evs, Inr (payload, err)) \<longrightarrow>
      main_poll e knownSensors [(d, info)] payloads
        = (evs, Inr (AList.update (topicOf knownSensors d) payload payloads)))
   \<and> (main_poll e knownSensors found payloads = (evs', Inr payloads') \<and> (d, info) \<in> set found
        \<longrightarrow> topicOf knownSensors d \<in> fst ` set payloads')"
  using main_poll_single [of e d info evs payload err knownSensors payloads]
    main_poll_member [of e knownSensors found payloads evs' payloads' d info]
  by blast

text \<open>
  Claim C2 says that a device without both a temperature and a humidity in its decoded
  measurements gets no message. The code never looks for the two measurements: a device
  whose temperature read succeeds and whose humidity read fails gets a payload with no
  humidity, and \<^verbatim>\<open>main\<close> stores and publishes it.
\<close>

theorem partial_payload_published:
  "main (exEnv\<lparr>scanAds := [\<lparr>adAddr = ''a4:c1:38:0c:5b:45'', adLocalName = ''ATC_0C5B45''\<rparr>],
               bleConnect :=
                 (\<lambda>d. Inr ((exClient d)\<lparr>ReadCharacteristic :=
                    (\<lambda>c. if cUUID c = temperatureUUID then Inr [0xD7, 0x00]
                         else Inl (OtherError ''read failed''))\<rparr>))\<rparr>)
     = ([BleScan, BleConnect ''a4:c1:38:0c:5b:45'', BleDiscoverProfile,
         BleReadCharacteristic ''2a1f'', BleReadCharacteristic ''2a6f'',
         BleCancelConnection, BleAwaitDisconnected, MqttConnect,
         MqttPublish ''temperature/room''
           [(''temperature'', Float32 (43 / 2)), (''timestamp'', Int64 1700000000),
            (''address'', String ''a4:c1:38:0c:5b:45''), (''sensorname'', String ''desk'')],
         MqttDisconnect],
        Inr ())"
  by code_simp

lemma main_poll_shared_topic:
  assumes "getDeviceData (bleConnect e) (nowMilli e) d1 info1 = (evs1, Inr (payload1, err1))"
    and "getDeviceData (bleConnect e) (nowMilli e) d2 info2 = (evs2, Inr (payload2, err2))"
    and "topicOf knownSensors d1 = topicOf knownSensors d2"
  shows "main_poll e knownSensors [(d1, info1), (d2, info2)] []
           = (evs1 @ evs2, Inr [(topicOf knownSensors d2, payload2)])"
  using assms main_poll_Cons_returns [OF assms(1)] main_poll_Cons_returns [OF assms(2)]
  by simp

lemma published_once_per_topic:
  assumes "main_poll e knownSensors found [] = (evs, Inr payloads)"
    and "mqttConnectErr e = None"
  shows "mset (filter isPublish (fst (main_publish e payloads)))
           = mset (map (\<lambda>(topic, payload). MqttPublish topic payload) payloads)"
    and "distinct (map fst payloads)"
    and "fst ` set payloads = topicOf knownSensors ` fst ` set found"
    and "length (filter isPublish (fst (main_publish e payloads)))
           = card (topicOf knownSensors ` fst ` set found)"
proof -
  show 1: "mset (filter isPublish (fst (main_publish e payloads)))
           = mset (map (\<lambda>(topic, payload). MqttPublish topic payload) payloads)"
    by (simp add: publish_events [OF assms(2)] mset_rangeOrder)
  show 2: "distinct (map fst payloads)"
    using main_poll_distinct [OF assms(1)] by simp
  show 3: "fst ` set payloads = topicOf knownSensors ` fst ` set found"
    using main_poll_keys [OF assms(1)] by simp
  have "length (filter isPublish (fst (main_publish e payloads))) = length (map fst payloads)"
    by (simp add: publish_events [OF assms(2)] length_rangeOrder)
  also have "\<dots> = card (set (map fst payloads))"
    using 2 by (simp only: distinct_card)
  also have "\<dots> = card (topicOf knownSensors ` fst ` set found)"
    using 3 by simp
  finally show "length (filter isPublish (fst (main_publish e payloads)))
           = card (topicOf knownSensors ` fst ` set found)" .
qed

text \<open>
  The publish collection is keyed by topic. When the polling loop completes, it holds one
  message for each topic of a found device; once the broker is connected, each of them is
  published once. Two found devices with the same topic leave one message, the payload of
  the one polled last.
\<close>

lemma one_message_per_topic:
  "(main_poll e knownSensors found [] = (evs, Inr payloads) \<and> mqttConnectErr e = None \<longrightarrow>
      mset (filter isPublish (fst (main_publish e payloads)))
        = mset (map (\<lambda>(topic, payload). MqttPublish topic payload) payloads)
      \<and> distinct (map fst payloads)
      \<and> fst ` set payloads = topicOf knownSensors ` fst ` set found
      \<and> length (filter isPublish (fst (main_publish e payloads)))
          = card (topicOf knownSensors ` fst ` set found))
   \<and> (getDeviceData (bleConnect e) (nowMilli e) d1 info1 = (evs1, Inr (payload1, err1))
        \<and> getDeviceData (bleConnect e) (nowMilli e) d2 info2 = (evs2, Inr (payload2, err2))
        \<and> topicOf knownSensors d1 = topicOf knownSensors d2 \<longrightarrow>
      main_poll e knownSensors [(d1, info1), (d2, info2)] []
        = (evs1 @ evs2, Inr [(topicOf knownSensors d2, payload2)]))"
  using published_once_per_topic [of e knownSensors found evs payloads]
    main_poll_shared_topic [of e d1 info1 evs1 payload1 err1 d2 info2 evs2 payload2 err2 knownSensors]
  by blast

text \<open>
  Claim C4 says that every matched device that yielded both measurements gets a message
  of its own, published once, also when two devices have the same topic. In the code the
  second payload stored under a topic replaces the first: the two example sensors are
  both found, both yield a temperature and a humidity, and share a topic; one message is
  published, the one of the sensor polled last.
\<close>

theorem shared_topic_one_message:
  "loadKnownSensors (iniLoad exEnv) = Inr exKnown
   \<and> bleScan exKnown (scanAds exEnv) = exKnown
   \<and> snd (getDeviceData (bleConnect exEnv) (nowMilli exEnv) ''a4:c1:38:0c:5b:45''
            \<lparr>sensorName = ''desk'', mqttTopic = ''temperature/room''\<rparr>)
       = Inr ([(''temperature'', Float32 (43 / 2)), (''humidity'', Uint16 45),
               (''timestamp'', Int64 1700000000), (''address'', String ''a4:c1:38:0c:5b:45''),
               (''sensorname'', String ''desk'')], None)
   \<and> snd (getDeviceData (bleConnect exEnv) (nowMilli exEnv) ''a4:c1:38:0c:5b:46''
            \<lparr>sensorName = ''shelf'', mqttTopic = ''temperature/room''\<rparr>)
       = Inr ([(''temperature'', Float32 (43 / 2)), (''humidity'', Uint16 45),
               (''timestamp'', Int64 1700000000), (''address'', String ''a4:c1:38:0c:5b:46''),
               (''sensorname'', String ''shelf'')], None)
   \<and> filter isPublish (fst (main exEnv))
       = [MqttPublish ''temperature/room''
            [(''temperature'', Float32 (43 / 2)), (''humidity'', Uint16 45),
             (''timestamp'', Int64 1700000000), (''address'', String ''a4:c1:38:0c:5b:46''),
             (''sensorname'', String ''shelf'')]]"
  by code_simp

end
